theory Spec2Isabelle
  imports Main "HOL-Library.Word"
begin

section \<open>Python values used by xlrd\<close>

text \<open>
  Exceptions of the source are values.  \<open>CompDocError\<close> and \<open>XLRDError\<close> are the
  two exception classes of the package; the others are built-in Python exceptions that the
  source lets escape (\<open>struct.error\<close> from \<open>unpack\<close> on a buffer of the
  wrong size, \<open>IndexError\<close> from indexing, and so on).  Messages that the source builds
  with format arguments are kept without the arguments.
\<close>

datatype error =
    CompDocError string
  | XLRDError string
  | StructError
  | IndexError
  | KeyError
  | TypeError
  | ZeroDivisionError
  | AssertionError
  | OverflowError
  | LookupError
  | UnicodeDecodeError

type_synonym byte = "8 word"

text \<open>Python's \<open>xs[a:b]\<close> for integers \<open>a\<close>, \<open>b\<close>: negative bounds count from
  the end, and bounds are clipped to the sequence.\<close>

definition py_bound :: "nat \<Rightarrow> int \<Rightarrow> nat" where
  "py_bound n i = (if i < 0 then nat (max 0 (int n + i)) else min (nat i) n)"

definition py_slice :: "'a list \<Rightarrow> int \<Rightarrow> int \<Rightarrow> 'a list" where
  "py_slice xs a b =
     (let lo = py_bound (length xs) a; hi = py_bound (length xs) b
      in take (hi - lo) (drop lo xs))"

text \<open>Python's \<open>xs[i]\<close>: a negative index counts from the end; out of range raises.\<close>

definition py_index :: "'a list \<Rightarrow> int \<Rightarrow> error + 'a" where
  "py_index xs i =
     (if 0 \<le> i \<and> i < int (length xs) then Inr (xs ! nat i)
      else if i < 0 \<and> - int (length xs) \<le> i then Inr (xs ! nat (int (length xs) + i))
      else Inl IndexError)"

text \<open>\<open>struct.unpack\<close> for the little-endian formats the source uses.  A buffer whose
  length is not the size of the format raises \<open>struct.error\<close>.\<close>

definition le_uint :: "byte list \<Rightarrow> int" where
  "le_uint bs = foldr (\<lambda>b acc. uint b + 256 * acc) bs 0"

definition le_sint32 :: "byte list \<Rightarrow> int" where
  "le_sint32 bs = (let v = le_uint bs in if v \<ge> 2147483648 then v - 4294967296 else v)"

definition unpack_H :: "byte list \<Rightarrow> error + int" where
  "unpack_H bs = (if length bs = 2 then Inr (le_uint bs) else Inl StructError)"

definition unpack_HH :: "byte list \<Rightarrow> error + (int \<times> int)" where
  "unpack_HH bs =
     (if length bs = 4 then Inr (le_uint (take 2 bs), le_uint (drop 2 bs)) else Inl StructError)"

fun chunks4 :: "nat \<Rightarrow> byte list \<Rightarrow> int list" where
  "chunks4 0 bs = []"
| "chunks4 (Suc n) bs = le_sint32 (take 4 bs) # chunks4 n (drop 4 bs)"

text \<open>\<open>unpack('<%di' % n, bs)\<close>: \<open>n\<close> signed 32-bit integers.\<close>

definition unpack_i :: "nat \<Rightarrow> byte list \<Rightarrow> error + int list" where
  "unpack_i n bs = (if length bs = 4 * n then Inr (chunks4 n bs) else Inl StructError)"

section \<open>book.py: the record cursor\<close>

definition MY_EOF :: int where
  "MY_EOF = 0xF00BAAA"

text \<open>
  The fields of \<open>Book\<close> that the modelled methods read or write.  \<open>mem\<close> is
  \<open>None\<close> after \<open>release_resources\<close>; slicing \<open>None\<close> raises
  \<open>TypeError\<close>.  Sheets are objects of the sheet decoder (\<open>sheet.py\<close>), kept
  abstract as the type parameter.
\<close>

record 'sh book =
  mem :: "byte list option"
  filestr :: "byte list option"
  position :: int
  resources_released :: int
  sheet_list :: "'sh option list"
  sheet_names :: "string list"
  sh_abs_posn :: "int list"
  nsheets :: int
  biff_version :: int
  verbosity :: int
  codepage :: "int option"
  encoding :: "string option"
  encoding_override :: "string option"
  raw_user_name :: bool
  user_name :: "byte list + string"
  date_mode :: int
  sharedstrings :: "string list option"
  rich_text_runlist_map :: "unit option"

definition mem_slice :: "'sh book \<Rightarrow> int \<Rightarrow> int \<Rightarrow> error + byte list" where
  "mem_slice bk a b = (case mem bk of None \<Rightarrow> Inl TypeError | Some m \<Rightarrow> Inr (py_slice m a b))"

definition get2bytes :: "'sh book \<Rightarrow> error + (int \<times> 'sh book)" where
  "get2bytes bk =
     (let pos = position bk in
      case mem_slice bk pos (pos + 2) of
        Inl e \<Rightarrow> Inl e
      | Inr buff_two \<Rightarrow>
          (let len_buff = int (length buff_two);
               bk' = bk\<lparr>position := position bk + len_buff\<rparr>
           in if len_buff < 2 then Inr (MY_EOF, bk')
              else Inr (le_uint buff_two, bk')))"

definition get_record_parts :: "'sh book \<Rightarrow> error + ((int \<times> int \<times> byte list) \<times> 'sh book)" where
  "get_record_parts bk =
     (let pos = position bk in
      case mem_slice bk pos (pos + 4) of
        Inl e \<Rightarrow> Inl e
      | Inr hdr \<Rightarrow>
          (case unpack_HH hdr of
             Inl e \<Rightarrow> Inl e
           | Inr (code, len) \<Rightarrow>
               (let pos' = pos + 4 in
                case mem_slice bk pos' (pos' + len) of
                  Inl e \<Rightarrow> Inl e
                | Inr data \<Rightarrow> Inr ((code, len, data), bk\<lparr>position := pos' + len\<rparr>))))"

definition get_record_parts_conditional ::
  "'sh book \<Rightarrow> int \<Rightarrow> error + ((int option \<times> int \<times> byte list) \<times> 'sh book)" where
  "get_record_parts_conditional bk reqd_record =
     (let pos = position bk in
      case mem_slice bk pos (pos + 4) of
        Inl e \<Rightarrow> Inl e
      | Inr hdr \<Rightarrow>
          (case unpack_HH hdr of
             Inl e \<Rightarrow> Inl e
           | Inr (code, len) \<Rightarrow>
               if code \<noteq> reqd_record then Inr ((None, 0, []), bk)
               else
                 (let pos' = pos + 4 in
                  case mem_slice bk pos' (pos' + len) of
                    Inl e \<Rightarrow> Inl e
                  | Inr data \<Rightarrow> Inr ((Some code, len, data), bk\<lparr>position := pos' + len\<rparr>))))"

definition read_book :: "'sh book \<Rightarrow> int \<Rightarrow> int \<Rightarrow> error + (byte list \<times> 'sh book)" where
  "read_book bk pos len =
     (case mem_slice bk pos (pos + len) of
        Inl e \<Rightarrow> Inl e
      | Inr data \<Rightarrow> Inr (data, bk\<lparr>position := pos + int (length data)\<rparr>))"


text \<open>The class attributes of \<open>Book\<close> and the assignments of \<open>__init__\<close>; the
  cursor, which \<open>biff2_8_load\<close> sets to the base of the stream, starts at 0.\<close>

definition Book_init :: "'sh book" where
  "Book_init =
     \<lparr>mem = Some [], filestr = Some [], position = 0, resources_released = 0,
      sheet_list = [], sheet_names = [], sh_abs_posn = [], nsheets = 0,
      biff_version = 0, verbosity = 0, codepage = None, encoding = None,
      encoding_override = None, raw_user_name = False, user_name = Inr [],
      date_mode = 0, sharedstrings = Some [], rich_text_runlist_map = Some ()\<rparr>"

section \<open>book.py: detecting the binary-format version\<close>

text \<open>
  The constants and tables of \<open>biffh.py\<close> that \<open>book.py\<close> star-imports.  That
  module is not part of the sources at hand, so its values are a parameter of every function
  that reads one.
\<close>

record biffh =
  bofcodes :: "int list"
  boflen :: "int \<rightharpoonup> int"
  biff_text_from_num :: "int \<rightharpoonup> string"
  encoding_from_codepage :: "int \<rightharpoonup> string"
  XL_WORKBOOK_GLOBALS :: int
  XL_WORKBOOK_GLOBALS_4W :: int
  XL_WORKSHEET :: int
  XL_EOF :: int
  XL_FILEPASS :: int
  XL_DATEMODE :: int
  XL_CONTINUE :: int

definition SUPPORTED_VERSIONS :: "int list" where
  "SUPPORTED_VERSIONS = [80, 70, 50, 45, 40, 30, 21, 20]"

definition bof_error :: "string \<Rightarrow> error + 'a" where
  "bof_error msg = Inl (XLRDError (''Unsupported format, or corrupt file: '' @ msg))"

text \<open>Lines 1220 to 1240 of \<open>getbof\<close>: the version from the high byte of the opcode
  (\<open>version1\<close>), the version word and the build and year fields.\<close>

definition bof_version :: "int \<Rightarrow> int \<Rightarrow> int \<Rightarrow> int \<Rightarrow> int" where
  "bof_version version1 version2 build year =
     (if version1 = 0x08 then
        (if version2 = 0x0600 then 80
         else if version2 = 0x0500 then
           (if year < 1994 \<or> build \<in> {2412, 3218, 3321} then 50 else 70)
         else if version2 = 0x0000 then 21
         else if version2 = 0x0007 then 21
         else if version2 = 0x0200 then 21
         else if version2 = 0x0300 then 30
         else if version2 = 0x0400 then 40
         else 0)
      else if version1 = 0x04 then 40
      else if version1 = 0x02 then 30
      else if version1 = 0x00 then 21
      else 0)"

text \<open>Lines 1242 to 1256: the BIFF4W adjustment and the check of the stream kind.\<close>

definition bof_result :: "biffh \<Rightarrow> int \<Rightarrow> int \<Rightarrow> int \<Rightarrow> error + int" where
  "bof_result K rqd_stream version0 streamtype =
     (let version = (if version0 = 40 \<and> streamtype = XL_WORKBOOK_GLOBALS_4W K then 45 else version0);
          got_globals = (streamtype = XL_WORKBOOK_GLOBALS K \<or>
                         (version = 45 \<and> streamtype = XL_WORKBOOK_GLOBALS_4W K))
      in if (rqd_stream = XL_WORKBOOK_GLOBALS K \<and> got_globals) \<or> streamtype = rqd_stream
         then Inr version
         else if version < 50 \<and> streamtype = XL_WORKSHEET K then Inr version
         else if version \<ge> 50 \<and> streamtype = 0x0100
         then bof_error ''Workspace file -- no spreadsheet data''
         else bof_error ''BOF not workbook/worksheet'')"

definition getbof :: "biffh \<Rightarrow> 'sh book \<Rightarrow> int \<Rightarrow> error + (int \<times> 'sh book)" where
  "getbof K bk rqd_stream =
     (case get2bytes bk of
        Inl e \<Rightarrow> Inl e
      | Inr (opcode, bk1) \<Rightarrow>
          if opcode = MY_EOF then bof_error ''Expected BOF record; met end of file''
          else if opcode \<notin> set (bofcodes K) then bof_error ''Expected BOF record; found''
          else
            (case get2bytes bk1 of
               Inl e \<Rightarrow> Inl e
             | Inr (len, bk2) \<Rightarrow>
                 if len = MY_EOF then bof_error ''Incomplete BOF record[1]; met end of file''
                 else if \<not> (4 \<le> len \<and> len \<le> 20) then bof_error ''Invalid length for BOF record type''
                 else
                   (case boflen K opcode of
                      None \<Rightarrow> Inl KeyError
                    | Some bl \<Rightarrow>
                        (let padding = replicate (nat (max 0 (bl - len))) (0 :: byte) in
                         case read_book bk2 (position bk2) len of
                           Inl e \<Rightarrow> Inl e
                         | Inr (data0, bk3) \<Rightarrow>
                             if int (length data0) < len
                             then bof_error ''Incomplete BOF record[2]; met end of file''
                             else
                               (let data = data0 @ padding;
                                    version1 = opcode div 256 in
                                case unpack_HH (py_slice data 0 4) of
                                  Inl e \<Rightarrow> Inl e
                                | Inr (version2, streamtype) \<Rightarrow>
                                    (if version1 = 0x08 then
                                       (case unpack_HH (py_slice data 4 8) of
                                          Inl e \<Rightarrow> Inl e
                                        | Inr (build, year) \<Rightarrow>
                                            (case bof_result K rqd_stream
                                                    (bof_version version1 version2 build year) streamtype of
                                               Inl e \<Rightarrow> Inl e
                                             | Inr v \<Rightarrow> Inr (v, bk3)))
                                     else
                                       (case bof_result K rqd_stream
                                               (bof_version version1 version2 0 0) streamtype of
                                          Inl e \<Rightarrow> Inl e
                                        | Inr v \<Rightarrow> Inr (v, bk3))))))))"

text \<open>Lines 74 to 82 of \<open>open_workbook_xls\<close>: the caller's check of the version.\<close>

definition open_workbook_getbof :: "biffh \<Rightarrow> 'sh book \<Rightarrow> error + 'sh book" where
  "open_workbook_getbof K bk =
     (case getbof K bk (XL_WORKBOOK_GLOBALS K) of
        Inl e \<Rightarrow> Inl e
      | Inr (v, bk1) \<Rightarrow>
          if v = 0 then Inl (XLRDError ''Can't determine file's BIFF version'')
          else if v \<notin> set SUPPORTED_VERSIONS then
            (case biff_text_from_num K v of
               None \<Rightarrow> Inl KeyError
             | Some t \<Rightarrow> Inl (XLRDError (''BIFF version '' @ t @ '' is not supported'')))
          else Inr (bk1\<lparr>biff_version := v\<rparr>))"

section \<open>book.py: sheets on demand and the release of resources\<close>

text \<open>
  The sheet decoder is outside the sources at hand: \<open>sheet_read\<close> stands for
  \<open>Sheet(book, position, name, number)\<close> followed by \<open>sh.read(book)\<close>, and
  \<open>sheet_bool\<close> for the truth value Python gives a sheet object.
\<close>

record 'sh sheet_api =
  sheet_read :: "'sh book \<Rightarrow> int \<Rightarrow> string \<Rightarrow> int \<Rightarrow> error + ('sh \<times> 'sh book)"
  sheet_bool :: "'sh \<Rightarrow> bool"

text \<open>Python's \<open>xs[i] = v\<close>.\<close>

definition py_update :: "'a list \<Rightarrow> int \<Rightarrow> 'a \<Rightarrow> error + 'a list" where
  "py_update xs i v =
     (if 0 \<le> i \<and> i < int (length xs) then Inr (xs[nat i := v])
      else if i < 0 \<and> - int (length xs) \<le> i then Inr (xs[nat (int (length xs) + i) := v])
      else Inl IndexError)"

definition release_resources :: "'sh book \<Rightarrow> 'sh book" where
  "release_resources bk =
     bk\<lparr>resources_released := 1, mem := None, filestr := None,
        sharedstrings := None, rich_text_runlist_map := None\<rparr>"

definition get_sheet ::
  "biffh \<Rightarrow> 'sh sheet_api \<Rightarrow> 'sh book \<Rightarrow> int \<Rightarrow> bool \<Rightarrow> error + ('sh \<times> 'sh book)" where
  "get_sheet K S bk sh_number update_pos =
     (if resources_released bk \<noteq> 0
      then Inl (XLRDError ''Can't load sheets after releasing resources.'')
      else
        (case (if update_pos
               then (case py_index (sh_abs_posn bk) sh_number of
                       Inl e \<Rightarrow> Inl e
                     | Inr p \<Rightarrow> Inr (bk\<lparr>position := p\<rparr>))
               else Inr bk) of
           Inl e \<Rightarrow> Inl e
         | Inr bk1 \<Rightarrow>
             (case getbof K bk1 (XL_WORKSHEET K) of
                Inl e \<Rightarrow> Inl e
              | Inr (v, bk2) \<Rightarrow>
                  (case py_index (sheet_names bk2) sh_number of
                     Inl e \<Rightarrow> Inl e
                   | Inr nm \<Rightarrow>
                       (case sheet_read S bk2 (position bk2) nm sh_number of
                          Inl e \<Rightarrow> Inl e
                        | Inr (sh, bk3) \<Rightarrow>
                            (case py_update (sheet_list bk3) sh_number (Some sh) of
                               Inl e \<Rightarrow> Inl e
                             | Inr sl \<Rightarrow> Inr (sh, bk3\<lparr>sheet_list := sl\<rparr>)))))))"

text \<open>The truth value of an entry of \<open>_sheet_list\<close>: \<open>None\<close> is false.\<close>

definition entry_bool :: "'sh sheet_api \<Rightarrow> 'sh option \<Rightarrow> bool" where
  "entry_bool S e = (case e of None \<Rightarrow> False | Some sh \<Rightarrow> sheet_bool S sh)"

text \<open>\<open>self._sheet_list[sheetx] or self.get_sheet(sheetx)\<close>.  The value of the
  expression is a sheet, \<open>get_sheet\<close> returning one.\<close>

definition sheet_by_index ::
  "biffh \<Rightarrow> 'sh sheet_api \<Rightarrow> 'sh book \<Rightarrow> int \<Rightarrow> error + ('sh \<times> 'sh book)" where
  "sheet_by_index K S bk sheetx =
     (case py_index (sheet_list bk) sheetx of
        Inl e \<Rightarrow> Inl e
      | Inr None \<Rightarrow> get_sheet K S bk sheetx True
      | Inr (Some sh) \<Rightarrow> if sheet_bool S sh then Inr (sh, bk) else get_sheet K S bk sheetx True)"

text \<open>\<open>list.index\<close>: the first position of an element, if any.\<close>

fun list_index :: "'a list \<Rightarrow> 'a \<Rightarrow> nat option" where
  "list_index [] y = None"
| "list_index (x # xs) y = (if x = y then Some 0 else map_option Suc (list_index xs y))"

definition sheet_by_name ::
  "biffh \<Rightarrow> 'sh sheet_api \<Rightarrow> 'sh book \<Rightarrow> string \<Rightarrow> error + ('sh \<times> 'sh book)" where
  "sheet_by_name K S bk sheet_name =
     (case list_index (sheet_names bk) sheet_name of
        None \<Rightarrow> Inl (XLRDError ''No sheet named'')
      | Some sheetx \<Rightarrow> sheet_by_index K S bk (int sheetx))"

text \<open>The loop of \<open>sheets\<close> over \<open>xrange(self.nsheets)\<close>, then the copy of the list.\<close>

fun sheets_loop :: "biffh \<Rightarrow> 'sh sheet_api \<Rightarrow> 'sh book \<Rightarrow> int list \<Rightarrow> error + 'sh book" where
  "sheets_loop K S bk [] = Inr bk"
| "sheets_loop K S bk (sheetx # rest) =
     (case py_index (sheet_list bk) sheetx of
        Inl e \<Rightarrow> Inl e
      | Inr e \<Rightarrow>
          if \<not> entry_bool S e then
            (case get_sheet K S bk sheetx True of
               Inl err \<Rightarrow> Inl err
             | Inr (sh, bk1) \<Rightarrow> sheets_loop K S bk1 rest)
          else sheets_loop K S bk rest)"

definition sheets ::
  "biffh \<Rightarrow> 'sh sheet_api \<Rightarrow> 'sh book \<Rightarrow> error + ('sh option list \<times> 'sh book)" where
  "sheets K S bk =
     (case sheets_loop K S bk (map int [0 ..< nat (nsheets bk)]) of
        Inl e \<Rightarrow> Inl e
      | Inr bk1 \<Rightarrow> Inr (sheet_list bk1, bk1))"

section \<open>book.py: deriving the encoding\<close>

text \<open>
  What \<open>derive_encoding\<close> uses of Python and of \<open>biffh.py\<close>:
  \<open>decode_trial enc\<close> is \<open>unicode(b'trial', enc)\<close>, \<open>None\<close> when it decodes and the
  exception otherwise; \<open>unpack_string data enc\<close> is
  \<open>unpack_string(data, 0, enc, lenlen=1)\<close>.
\<close>

record codecs =
  decode_trial :: "string \<Rightarrow> error option"
  unpack_string :: "byte list \<Rightarrow> string option \<Rightarrow> error + string"

text \<open>\<open>str(n)\<close> for an integer.\<close>

fun str_nat :: "nat \<Rightarrow> string" where
  "str_nat n = (if n < 10 then [char_of (48 + n)] else str_nat (n div 10) @ [char_of (48 + n mod 10)])"

declare str_nat.simps [simp del]

definition str_int :: "int \<Rightarrow> string" where
  "str_int i = (if i < 0 then CHR ''-'' # str_nat (nat (- i)) else str_nat (nat i))"

text \<open>\<open>str.rstrip()\<close> on text of the ASCII range: trailing white space is dropped.\<close>

definition is_space :: "char \<Rightarrow> bool" where
  "is_space c = (of_char c \<in> {9, 10, 11, 12, 13, 28, 29, 30, 31, 32 :: nat})"

definition rstrip :: "string \<Rightarrow> string" where
  "rstrip s = rev (dropWhile is_space (rev s))"

text \<open>The truth value of \<open>encoding_override\<close>: \<open>None\<close> and the empty string are false.\<close>

definition override_set :: "'sh book \<Rightarrow> bool" where
  "override_set bk = (case encoding_override bk of None \<Rightarrow> False | Some ov \<Rightarrow> ov \<noteq> [])"

text \<open>Lines 757 to 778: the choice of the encoding.\<close>

definition choose_encoding :: "biffh \<Rightarrow> 'sh book \<Rightarrow> 'sh book" where
  "choose_encoding K bk =
     (if override_set bk then bk\<lparr>encoding := encoding_override bk\<rparr>
      else
        (case codepage bk of
           None \<Rightarrow>
             if biff_version bk < 80 then bk\<lparr>encoding := Some ''iso-8859-1''\<rparr>
             else bk\<lparr>codepage := Some 1200\<rparr>
         | Some cp \<Rightarrow>
             (case encoding_from_codepage K cp of
                Some enc \<Rightarrow> bk\<lparr>encoding := Some enc\<rparr>
              | None \<Rightarrow>
                  if 300 \<le> cp \<and> cp \<le> 1999 then bk\<lparr>encoding := Some (''cp'' @ str_int cp)\<rparr>
                  else if biff_version bk \<ge> 80
                  then bk\<lparr>codepage := Some 1200, encoding := Some ''utf_16_le''\<rparr>
                  else bk\<lparr>encoding := Some (''unknown_codepage_'' @ str_int cp)\<rparr>)))"

text \<open>Lines 779 to 787: the trial decoding; a failure is logged and raised again.
  Without an encoding, \<open>unicode(b'trial', None)\<close> raises \<open>TypeError\<close>.\<close>

definition trial :: "codecs \<Rightarrow> 'sh book \<Rightarrow> error option" where
  "trial E bk =
     (if codepage bk \<noteq> Some 1200 then
        (case encoding bk of None \<Rightarrow> Some TypeError | Some enc \<Rightarrow> decode_trial E enc)
      else None)"

text \<open>Lines 788 to 795: the user name kept raw by \<open>handle_writeaccess\<close> is decoded.\<close>

definition derive_encoding ::
  "biffh \<Rightarrow> codecs \<Rightarrow> 'sh book \<Rightarrow> error + (string option \<times> 'sh book)" where
  "derive_encoding K E bk =
     (let bk1 = choose_encoding K bk in
      case trial E bk1 of
        Some e \<Rightarrow> Inl e
      | None \<Rightarrow>
          if raw_user_name bk1 then
            (case user_name bk1 of
               Inr txt \<Rightarrow> Inl TypeError
             | Inl data \<Rightarrow>
                 (case unpack_string E data (encoding bk1) of
                    Inl e \<Rightarrow> Inl e
                  | Inr strg \<Rightarrow>
                      (let bk2 = bk1\<lparr>user_name := Inr (rstrip strg), raw_user_name := False\<rparr>
                       in Inr (encoding bk2, bk2))))
          else Inr (encoding bk1, bk1))"


section \<open>compdoc.py: the directory\<close>

definition EOCSID :: int where "EOCSID = -2"
definition FREESID :: int where "FREESID = -1"
definition SATSID :: int where "SATSID = -3"
definition MSATSID :: int where "MSATSID = -4"
definition EVILSID :: int where "EVILSID = -5"

text \<open>Text is a list of Unicode code points.  \<open>str.lower\<close> is Python's; the functions that
  compare names take it as the parameter \<open>lower\<close>.\<close>

type_synonym ustring = "int list"

record DirNode =
  DID :: int
  name :: ustring
  etype :: int
  colour :: int
  left_DID :: int
  right_DID :: int
  root_DID :: int
  first_SID :: int
  tot_size :: int
  children :: "int list"
  parent :: int

text \<open>The two messages of \<open>_dir_search\<close>; each ends with a quotation mark.\<close>

definition storage_msg :: string where
  "storage_msg = ''Requested component is a 'storage'' @ [CHR 0x27]"

definition user_stream_msg :: string where
  "user_stream_msg = ''Requested stream is not a 'user stream'' @ [CHR 0x27]"

text \<open>
  The \<open>for\<close> loop of \<open>_dir_search\<close> over the children of a storage.  Every branch of
  its body under the test of the name returns or raises, so the loop stops at the first child
  whose name matches: \<open>first_match\<close> finds that child, \<open>None\<close> when the loop runs to
  its end.
\<close>

fun first_match ::
  "(ustring \<Rightarrow> ustring) \<Rightarrow> DirNode list \<Rightarrow> int list \<Rightarrow> ustring \<Rightarrow> error + int option" where
  "first_match lower dl [] head = Inr None"
| "first_match lower dl (child # rest) head =
     (case py_index dl child of
        Inl e \<Rightarrow> Inl e
      | Inr node \<Rightarrow>
          if lower (name node) = lower head then Inr (Some child)
          else first_match lower dl rest head)"

fun dir_search ::
  "(ustring \<Rightarrow> ustring) \<Rightarrow> DirNode list \<Rightarrow> ustring list \<Rightarrow> int \<Rightarrow> error + DirNode option" where
  "dir_search lower dl [] storage_DID = Inl IndexError"
| "dir_search lower dl (head # tail) storage_DID =
     (case py_index dl storage_DID of
        Inl e \<Rightarrow> Inl e
      | Inr storage \<Rightarrow>
          (case first_match lower dl (children storage) head of
             Inl e \<Rightarrow> Inl e
           | Inr None \<Rightarrow> Inr None
           | Inr (Some child) \<Rightarrow>
               (case py_index dl child of
                  Inl e \<Rightarrow> Inl e
                | Inr node \<Rightarrow>
                    if etype node = 2 then Inr (Some node)
                    else if etype node = 1 then
                      (if tail = [] then Inl (CompDocError storage_msg)
                       else dir_search lower dl tail child)
                    else Inl (CompDocError user_stream_msg))))"

text \<open>\<open>qname.split("/")\<close>.\<close>

fun split_slash :: "ustring \<Rightarrow> ustring list" where
  "split_slash [] = [[]]"
| "split_slash (c # cs) =
     (if c = 47 then [] # split_slash cs
      else (case split_slash cs of seg # segs \<Rightarrow> (c # seg) # segs | [] \<Rightarrow> [[c]]))"

section \<open>compdoc.py: the master and the sector allocation tables\<close>

text \<open>
  The array \<open>seen\<close> has one unsigned byte for each sector of the file.  A sector is
  marked when a chain reaches it; the number of sectors not yet marked bounds the walks that
  refuse a marked sector.
\<close>

definition unseen :: "nat list \<Rightarrow> nat" where
  "unseen seen = length (filter (\<lambda>v. v = 0) seen)"

lemma unseen_mark:
  "i < length seen \<Longrightarrow> seen ! i = 0 \<Longrightarrow> v \<noteq> 0 \<Longrightarrow> unseen (seen[i := v]) < unseen seen"
proof (induction seen arbitrary: i)
  case Nil
  then show ?case by simp
next
  case (Cons a seen)
  then show ?case
    by (cases i) (auto simp: unseen_def)
qed

text \<open>
  Lines 185 to 207 of \<open>CompDoc.__init__\<close>: the \<open>while\<close> loop over the sectors that
  extend the MSAT.  The state is the MSAT so far, \<open>seen\<close>, the sector to read next and
  \<open>actual_MSATX_sectors\<close>.  \<open>nent\<close> is the number of entries of a sector.
\<close>

function msatx_loop ::
  "byte list \<Rightarrow> int \<Rightarrow> nat \<Rightarrow> int \<Rightarrow> int list \<Rightarrow> nat list \<Rightarrow> int \<Rightarrow> nat
     \<Rightarrow> error + (int list \<times> nat list \<times> nat)" where
  "msatx_loop m sec_size nent mem_data_secs msat seen sid actual =
     (if sid \<in> {EOCSID, FREESID, MSATSID} then Inr (msat, seen, actual)
      else if sid \<ge> mem_data_secs then Inl (CompDocError ''MSAT extension: accessing sector'')
      else if sid < 0 then Inl (CompDocError ''MSAT extension: invalid sector id'')
      else if \<not> nat sid < length seen then Inl IndexError
      else if seen ! nat sid \<noteq> 0 then Inl (CompDocError ''MSAT corruption: seen'')
      else
        (let offset = 512 + sec_size * sid in
         case unpack_i nent (py_slice m offset (offset + sec_size)) of
           Inl e \<Rightarrow> Inl e
         | Inr entries \<Rightarrow>
             (let extended = msat @ entries in
              if extended = [] then Inl IndexError
              else msatx_loop m sec_size nent mem_data_secs (butlast extended)
                     (seen[nat sid := 1]) (last extended) (actual + 1))))"
  by pat_completeness auto
termination
  by (relation "measure (\<lambda>(m, sec_size, nent, mem_data_secs, msat, seen, sid, actual). unseen seen)")
     (auto intro: unseen_mark)

declare msatx_loop.simps [simp del]

text \<open>
  Lines 220 to 243: the \<open>for\<close> loop over the MSAT that builds the SAT.  The state is
  the MSAT as rewritten so far (an entry beyond the file becomes \<open>EVILSID\<close>), the SAT,
  \<open>seen\<close>, \<open>actual_SAT_sectors\<close> and \<open>dump_again\<close>.
\<close>

fun sat_loop ::
  "byte list \<Rightarrow> int \<Rightarrow> nat \<Rightarrow> int \<Rightarrow> int list
     \<Rightarrow> int list \<times> int list \<times> nat list \<times> nat \<times> bool
     \<Rightarrow> error + (int list \<times> int list \<times> nat list \<times> nat \<times> bool)" where
  "sat_loop m sec_size nent mem_data_secs [] st = Inr st"
| "sat_loop m sec_size nent mem_data_secs (msid # rest) (done, sat, seen, actual, dump_again) =
     (if msid \<in> {FREESID, EOCSID}
      then sat_loop m sec_size nent mem_data_secs rest (done @ [msid], sat, seen, actual, dump_again)
      else if msid \<ge> mem_data_secs
      then sat_loop m sec_size nent mem_data_secs rest (done @ [EVILSID], sat, seen, actual, True)
      else if msid < -2 then Inl (CompDocError ''MSAT: invalid sector id'')
      else if \<not> nat msid < length seen then Inl IndexError
      else if seen ! nat msid \<noteq> 0 then Inl (CompDocError ''MSAT extension corruption: seen'')
      else
        (let offset = 512 + sec_size * msid in
         case unpack_i nent (py_slice m offset (offset + sec_size)) of
           Inl e \<Rightarrow> Inl e
         | Inr entries \<Rightarrow>
             sat_loop m sec_size nent mem_data_secs rest
               (done @ [msid], sat @ entries, seen[nat msid := 2], actual + 1, dump_again)))"

definition SIGNATURE :: "byte list" where
  "SIGNATURE = [0xD0, 0xCF, 0x11, 0xE0, 0xA1, 0xB1, 0x1A, 0xE1]"

text \<open>What \<open>__init__\<close> has built when the SAT is complete: the MSAT after the extension
  chain, the MSAT after the loop over it, the SAT, and the values kept for later.\<close>

record tables =
  msat_chain :: "int list"
  msat_final :: "int list"
  sat_table :: "int list"
  seen_table :: "nat list"
  sector_size :: int
  short_sector_size :: int
  entries_per_sector :: nat
  data_secs :: int
  data_len :: int
  msatx_sectors :: nat
  sat_sectors :: nat
  header_ints :: "int list"

text \<open>Lines 170 to 207: the MSAT, from the 109 entries of the header and the extension
  chain.  (\<open>SAT_sectors_reqd\<close> and \<open>expected_MSATX_sectors\<close> are only logged, but
  their divisions raise when a sector holds no entry or one entry.)\<close>

definition build_MSAT ::
  "byte list \<Rightarrow> int \<Rightarrow> int \<Rightarrow> int \<Rightarrow> nat list \<Rightarrow> int \<Rightarrow> int
     \<Rightarrow> error + (int list \<times> nat list \<times> nat)" where
  "build_MSAT m sec_size nent mem_data_secs seen MSATX_first_sec_sid MSATX_tot_secs =
     (case unpack_i 109 (py_slice m 76 512) of
        Inl e \<Rightarrow> Inl e
      | Inr msat0 \<Rightarrow>
          if nent = 0 then Inl ZeroDivisionError
          else if nent - 1 = 0 then Inl ZeroDivisionError
          else if MSATX_tot_secs = 0 \<and> MSATX_first_sec_sid \<in> {EOCSID, FREESID, 0}
          then Inr (msat0, seen, 0)
          else msatx_loop m sec_size (nat nent) mem_data_secs msat0 seen MSATX_first_sec_sid 0)"

text \<open>Lines 217 to 251: the SAT, and the entries beyond the file set to \<open>EVILSID\<close>
  when an entry of the MSAT was out of range.\<close>

definition build_SAT ::
  "byte list \<Rightarrow> int \<Rightarrow> int \<Rightarrow> int \<Rightarrow> int list \<Rightarrow> nat list
     \<Rightarrow> error + (int list \<times> int list \<times> nat list \<times> nat)" where
  "build_SAT m sec_size nent mem_data_secs msat seen =
     (case sat_loop m sec_size (nat nent) mem_data_secs msat ([], [], seen, 0, False) of
        Inl e \<Rightarrow> Inl e
      | Inr (msat2, sat0, seen2, actual_SAT_sectors, dump_again) \<Rightarrow>
          Inr (msat2,
               (if dump_again
                then take (nat mem_data_secs) sat0
                     @ replicate (length sat0 - nat mem_data_secs) EVILSID
                else sat0),
               seen2, actual_SAT_sectors))"

text \<open>Lines 152 to 156: the number of sectors of the file; a last, incomplete sector counts.\<close>

definition data_sectors :: "int \<Rightarrow> int \<Rightarrow> int" where
  "data_sectors mem_data_len sec_size =
     (if mem_data_len mod sec_size \<noteq> 0 then mem_data_len div sec_size + 1
      else mem_data_len div sec_size)"

text \<open>Lines 126 to 161: the signature, the byte-order mark and the fields of the header.
  The result is the sector size, the short-sector size, the eight integers at offset 44,
  \<open>mem_data_len\<close> and \<open>mem_data_secs\<close>.\<close>

definition CompDoc_header :: "byte list \<Rightarrow> error + (int \<times> int \<times> int list \<times> int \<times> int)" where
  "CompDoc_header m =
     (if py_slice m 0 8 \<noteq> SIGNATURE then Inl (CompDocError ''Not an OLE2 compound document'')
      else if py_slice m 28 30 \<noteq> [0xFE, 0xFF] then Inl (CompDocError ''Expected little-endian marker'')
      else
        (case unpack_HH (py_slice m 24 28) of
           Inl e \<Rightarrow> Inl e
         | Inr (revision, version) \<Rightarrow>
        (case unpack_HH (py_slice m 30 34) of
           Inl e \<Rightarrow> Inl e
         | Inr (ssz0, sssz0) \<Rightarrow>
             (let ssz = (if ssz0 > 20 then 9 else ssz0);
                  sssz = (if sssz0 > ssz then 6 else sssz0);
                  sec_size = 2 ^ nat ssz;
                  short_sec_size = 2 ^ nat sssz
              in
              case unpack_i 8 (py_slice m 44 76) of
                Inl e \<Rightarrow> Inl e
              | Inr hdr \<Rightarrow>
                  (let mem_data_len = int (length m) - 512;
                       mem_data_secs = data_sectors mem_data_len sec_size
                   in Inr (sec_size, short_sec_size, hdr, mem_data_len, mem_data_secs))))))"

text \<open>Lines 161 to 251: \<open>seen\<close>, the number of entries of a sector, and the two
  tables.\<close>

definition CompDoc_tables :: "byte list \<Rightarrow> error + tables" where
  "CompDoc_tables m =
     (case CompDoc_header m of
        Inl e \<Rightarrow> Inl e
      | Inr (sec_size, short_sec_size, hdr, mem_data_len, mem_data_secs) \<Rightarrow>
          (let seen = replicate (nat mem_data_secs) (0 :: nat);
               nent = sec_size div 4
           in
           case build_MSAT m sec_size nent mem_data_secs seen (hdr ! 6) (hdr ! 7) of
             Inl e \<Rightarrow> Inl e
           | Inr (msat1, seen1, actual_MSATX_sectors) \<Rightarrow>
               (case build_SAT m sec_size nent mem_data_secs msat1 seen1 of
                  Inl e \<Rightarrow> Inl e
                | Inr (msat2, sat, seen2, actual_SAT_sectors) \<Rightarrow>
                    Inr \<lparr>msat_chain = msat1, msat_final = msat2, sat_table = sat,
                         seen_table = seen2,
                         sector_size = sec_size,
                         short_sector_size = short_sec_size,
                         entries_per_sector = nat nent,
                         data_secs = mem_data_secs,
                         data_len = mem_data_len,
                         msatx_sectors = actual_MSATX_sectors,
                         sat_sectors = actual_SAT_sectors,
                         header_ints = hdr\<rparr>)))"






section \<open>compdoc.py: locating a stream\<close>

text \<open>
  What \<open>_locate_stream\<close> returns as its first component: the byte sequence it was
  given (no copy), a new byte string joined from the fragments, or a
  \<open>ScatteredMemory\<close> over the fragments.
\<close>

datatype buffer = Shared | Owned "byte list" | Scattered "(int \<times> int) list"

text \<open>
  Lines 433 to 454: the \<open>while\<close> loop of \<open>_locate_stream\<close>.  The state is
  \<open>seen\<close>, the sector \<open>s\<close>, the previous sector \<open>p\<close>, \<open>start_pos\<close>,
  \<open>end_pos\<close>, \<open>slices\<close> and \<open>tot_found\<close>.  \<open>seen\<close> is an array of unsigned
  bytes: storing a value outside 0 to 255 raises \<open>OverflowError\<close>.
\<close>

function locate_loop ::
  "int list \<Rightarrow> int \<Rightarrow> int \<Rightarrow> bool \<Rightarrow> int \<Rightarrow> int
     \<Rightarrow> nat list \<Rightarrow> int \<Rightarrow> int \<Rightarrow> int \<Rightarrow> int \<Rightarrow> (int \<times> int) list \<Rightarrow> int
     \<Rightarrow> error + (nat list \<times> int \<times> int \<times> int \<times> (int \<times> int) list \<times> int)" where
  "locate_loop sat base sec_size ignore seen_id found_limit seen s p start_pos end_pos slices tot_found =
     (if s \<ge> 0 then
        (if \<not> nat s < length seen then Inl IndexError
         else if seen ! nat s \<noteq> 0 \<and> \<not> ignore then Inl (CompDocError ''corruption: seen'')
         else if \<not> (0 \<le> seen_id \<and> seen_id \<le> 255) then Inl OverflowError
         else if tot_found + 1 > found_limit then Inl (CompDocError ''size exceeds expected'')
         else
           (case py_index sat s of
              Inl e \<Rightarrow> Inl e
            | Inr next \<Rightarrow>
                if s = p + 1
                then locate_loop sat base sec_size ignore seen_id found_limit
                       (seen[nat s := nat seen_id]) next s start_pos (end_pos + sec_size) slices
                       (tot_found + 1)
                else locate_loop sat base sec_size ignore seen_id found_limit
                       (seen[nat s := nat seen_id]) next s (base + s * sec_size)
                       (base + s * sec_size + sec_size)
                       (if p \<ge> 0 then slices @ [(start_pos, end_pos)] else slices)
                       (tot_found + 1)))
      else Inr (seen, s, start_pos, end_pos, slices, tot_found))"
  by pat_completeness auto
termination
  by (relation "measure (\<lambda>(sat, base, sec_size, ignore, seen_id, found_limit, seen, s, p,
                            start_pos, end_pos, slices, tot_found). nat (found_limit - tot_found))")
     auto

declare locate_loop.simps [simp del]

text \<open>\<open>b''.join(mem[start_pos:end_pos] for start_pos, end_pos in slices)\<close>.\<close>

definition join_slices :: "byte list \<Rightarrow> (int \<times> int) list \<Rightarrow> byte list" where
  "join_slices m slices = concat (map (\<lambda>(start_pos, end_pos). py_slice m start_pos end_pos) slices)"

text \<open>\<open>_locate_stream\<close>; the result is the new \<open>seen\<close> and the triple.\<close>

definition locate_stream ::
  "byte list \<Rightarrow> int \<Rightarrow> int list \<Rightarrow> int \<Rightarrow> int \<Rightarrow> int \<Rightarrow> int \<Rightarrow> bool \<Rightarrow> nat list
     \<Rightarrow> error + (nat list \<times> buffer \<times> int \<times> int)" where
  "locate_stream m base sat sec_size start_sid expected_stream_size seen_id ignore seen =
     (if start_sid < 0 then Inl (CompDocError ''_locate_stream: start_sid is -ve'')
      else if sec_size = 0 then Inl ZeroDivisionError
      else
        (let found_limit = (expected_stream_size + sec_size - 1) div sec_size in
         case locate_loop sat base sec_size ignore seen_id found_limit seen start_sid (-99)
                (-9999) (-8888) [] 0 of
           Inl e \<Rightarrow> Inl e
         | Inr (seen', s, start_pos, end_pos, slices, tot_found) \<Rightarrow>
             if s \<noteq> EOCSID then Inl AssertionError
             else if tot_found \<noteq> found_limit then Inl AssertionError
             else if slices = [] then Inr (seen', Shared, start_pos, expected_stream_size)
             else
               (let slices' = slices @ [(start_pos, end_pos)] in
                if expected_stream_size < 1024 * 1024 * 90
                then Inr (seen', Owned (join_slices m slices'), 0, expected_stream_size)
                else Inr (seen', Scattered slices', 0, expected_stream_size))))"

text \<open>The bytes that the fragments cover, the sum of \<open>end_pos - start_pos\<close>.\<close>

definition slices_total :: "(int \<times> int) list \<Rightarrow> int" where
  "slices_total slices = sum_list (map (\<lambda>(start_pos, end_pos). end_pos - start_pos) slices)"

text \<open>The sector that a chain reaches after \<open>n\<close> steps from the sector \<open>s\<close>, each
  step being \<open>s = sat[s]\<close>; it serves to say that a chain comes back to one of its own
  sectors.\<close>

fun chain_sector :: "int list \<Rightarrow> int \<Rightarrow> nat \<Rightarrow> int" where
  "chain_sector sat s 0 = s"
| "chain_sector sat s (Suc n) = sat ! nat (chain_sector sat s n)"

unbundle bit_operations_syntax

section \<open>book.py: the table of shared strings\<close>

text \<open>
  Python's decoders.  \<open>latin_1\<close> maps every byte to the code point of the same number.
  \<open>utf_16_le\<close> reads 16-bit units; a unit from D800 to DBFF must be followed by a unit
  from DC00 to DFFF, and the two give one code point above FFFF; a high surrogate that is
  not followed by a low one, a low surrogate on its own, or a byte left over raise
  \<open>UnicodeDecodeError\<close>.
\<close>

definition latin_1 :: "byte list \<Rightarrow> ustring" where
  "latin_1 bs = map uint bs"

fun utf_16_le :: "byte list \<Rightarrow> error + ustring" where
  "utf_16_le [] = Inr []"
| "utf_16_le [b] = Inl UnicodeDecodeError"
| "utf_16_le (b0 # b1 # rest) =
     (let unit = uint b0 + 256 * uint b1 in
      if 0xD800 \<le> unit \<and> unit < 0xDC00 then
        (case rest of
           c0 # c1 # rest' \<Rightarrow>
             (let low = uint c0 + 256 * uint c1 in
              if 0xDC00 \<le> low \<and> low < 0xE000 then
                (case utf_16_le rest' of
                   Inl e \<Rightarrow> Inl e
                 | Inr t \<Rightarrow> Inr ((0x10000 + (unit - 0xD800) * 1024 + (low - 0xDC00)) # t))
              else Inl UnicodeDecodeError)
         | _ \<Rightarrow> Inl UnicodeDecodeError)
      else if 0xDC00 \<le> unit \<and> unit < 0xE000 then Inl UnicodeDecodeError
      else (case utf_16_le rest of Inl e \<Rightarrow> Inl e | Inr t \<Rightarrow> Inr (unit # t)))"

text \<open>
  Lines 1328 to 1360 of \<open>unpack_SST_table\<close>: the \<open>while True\<close> loop that collects the
  characters of one string, fragment by fragment.  The state is the index of the fragment,
  the fragment, the position in it, the option byte, the text so far and the number of
  characters got.  Each fragment's part is decoded on its own.
\<close>

function sst_chars ::
  "byte list list \<Rightarrow> int \<Rightarrow> nat \<Rightarrow> byte list \<Rightarrow> int \<Rightarrow> byte \<Rightarrow> ustring \<Rightarrow> int
     \<Rightarrow> error + (nat \<times> byte list \<times> int \<times> ustring)" where
  "sst_chars data_tab nchars datainx data pos options accstrg chars_got =
     (let datalen = int (length data);
          chars_need = nchars - chars_got;
          wide = (options AND 0x01 \<noteq> 0);
          chars_avail = (if wide then min ((datalen - pos) div 2) chars_need
                         else min (datalen - pos) chars_need);
          raw_str = (if wide then py_slice data pos (pos + 2 * chars_avail)
                     else py_slice data pos (pos + chars_avail));
          pos' = (if wide then pos + 2 * chars_avail else pos + chars_avail)
      in case (if wide then utf_16_le raw_str else Inr (latin_1 raw_str)) of
           Inl e \<Rightarrow> Inl e
         | Inr t \<Rightarrow>
             if chars_got + chars_avail = nchars then Inr (datainx, data, pos', accstrg @ t)
             else
               (case py_index data_tab (int datainx + 1) of
                  Inl e \<Rightarrow> Inl e
                | Inr data' \<Rightarrow>
                    (case py_index data' 0 of
                       Inl e \<Rightarrow> Inl e
                     | Inr options' \<Rightarrow>
                         sst_chars data_tab nchars (datainx + 1) data' 1 options' (accstrg @ t)
                           (chars_got + chars_avail))))"
  by pat_completeness auto
termination
  by (relation "measure (\<lambda>(data_tab, nchars, datainx, data, pos, options, accstrg, chars_got).
                           length data_tab - datainx)")
     (auto simp: py_index_def split: if_splits)

declare sst_chars.simps [simp del]

text \<open>Lines 1362 to 1372: the loop over the rich-text runs of a string.\<close>

fun sst_runs ::
  "byte list list \<Rightarrow> nat \<Rightarrow> nat \<Rightarrow> byte list \<Rightarrow> int \<Rightarrow> (int \<times> int) list
     \<Rightarrow> error + (nat \<times> byte list \<times> int \<times> (int \<times> int) list)" where
  "sst_runs data_tab 0 datainx data pos runs = Inr (datainx, data, pos, runs)"
| "sst_runs data_tab (Suc k) datainx data pos runs =
     (case (if pos = int (length data)
            then (case py_index data_tab (int datainx + 1) of
                    Inl e \<Rightarrow> Inl e
                  | Inr data' \<Rightarrow> Inr (datainx + 1, data', 0))
            else Inr (datainx, data, pos)) of
        Inl e \<Rightarrow> Inl e
      | Inr (datainx', data', pos') \<Rightarrow>
          (case unpack_HH (py_slice data' pos' (pos' + 4)) of
             Inl e \<Rightarrow> Inl e
           | Inr run \<Rightarrow> sst_runs data_tab k datainx' data' (pos' + 4) (runs @ [run])))"

text \<open>Lines 1315 to 1326: the length, the option byte and the two optional fields at the head
  of a string.  The result is \<open>nchars\<close>, \<open>options\<close>, \<open>rtcount\<close>, \<open>phosz\<close>
  and the position after them.\<close>

definition sst_head :: "byte list \<Rightarrow> int \<Rightarrow> error + (int \<times> byte \<times> int \<times> int \<times> int)" where
  "sst_head data pos =
     (case unpack_H (py_slice data pos (pos + 2)) of
        Inl e \<Rightarrow> Inl e
      | Inr nchars \<Rightarrow>
          (case py_index data (pos + 2) of
             Inl e \<Rightarrow> Inl e
           | Inr options \<Rightarrow>
               (case (if options AND 0x08 \<noteq> 0
                      then (case unpack_H (py_slice data (pos + 3) (pos + 3 + 2)) of
                              Inl e \<Rightarrow> Inl e
                            | Inr rtcount \<Rightarrow> Inr (rtcount, pos + 3 + 2))
                      else Inr (0, pos + 3)) of
                  Inl e \<Rightarrow> Inl e
                | Inr (rtcount, pos1) \<Rightarrow>
                    (if options AND 0x04 \<noteq> 0
                     then (case unpack_i 1 (py_slice data pos1 (pos1 + 4)) of
                             Inl e \<Rightarrow> Inl e
                           | Inr phosz \<Rightarrow> Inr (nchars, options, rtcount, hd phosz, pos1 + 4))
                     else Inr (nchars, options, rtcount, 0, pos1)))))"

text \<open>Lines 1374 to 1384: the phonetic data is skipped, and the position is carried over to
  the next fragment when it is at or past the end of this one.\<close>

definition sst_skip ::
  "byte list list \<Rightarrow> int \<Rightarrow> int \<Rightarrow> nat \<Rightarrow> byte list \<Rightarrow> int \<Rightarrow> int
     \<Rightarrow> error + (nat \<times> byte list \<times> int)" where
  "sst_skip data_tab n_strings i datainx data pos phosz =
     (let pos' = pos + phosz; datalen = int (length data) in
      if pos' \<ge> datalen then
        (if datainx + 1 < length data_tab
         then Inr (datainx + 1, data_tab ! (datainx + 1), pos' - datalen)
         else if i = n_strings - 1 then Inr (datainx + 1, data, pos' - datalen)
         else Inl AssertionError)
      else Inr (datainx, data, pos'))"

text \<open>
  One turn of the \<open>for\<close> loop over the strings (lines 1314 to 1385); \<open>i\<close> is the loop
  variable \<open>_unused_i\<close>.  The state between the turns is the index of the fragment, the
  fragment, the position, the strings and the rich-text runs.
\<close>

type_synonym sst_state =
  "nat \<times> byte list \<times> int \<times> ustring list \<times> (nat \<times> (int \<times> int) list) list"

definition sst_string :: "byte list list \<Rightarrow> int \<Rightarrow> int \<Rightarrow> sst_state \<Rightarrow> error + sst_state" where
  "sst_string data_tab n_strings i st =
     (case st of (datainx, data, pos, strings, richtext_runs) \<Rightarrow>
        (case sst_head data pos of
           Inl e \<Rightarrow> Inl e
         | Inr (nchars, options, rtcount, phosz, pos2) \<Rightarrow>
             (case sst_chars data_tab nchars datainx data pos2 options [] 0 of
                Inl e \<Rightarrow> Inl e
              | Inr (datainx3, data3, pos3, accstrg) \<Rightarrow>
                  (case (if rtcount \<noteq> 0
                         then (case sst_runs data_tab (nat rtcount) datainx3 data3 pos3 [] of
                                 Inl e \<Rightarrow> Inl e
                               | Inr (datainx', data', pos', runs) \<Rightarrow>
                                   Inr (datainx', data', pos',
                                        richtext_runs @ [(length strings, runs)]))
                         else Inr (datainx3, data3, pos3, richtext_runs)) of
                     Inl e \<Rightarrow> Inl e
                   | Inr (datainx4, data4, pos4, richtext_runs') \<Rightarrow>
                       (case sst_skip data_tab n_strings i datainx4 data4 pos4 phosz of
                          Inl e \<Rightarrow> Inl e
                        | Inr (datainx5, data5, pos5) \<Rightarrow>
                            Inr (datainx5, data5, pos5, strings @ [accstrg], richtext_runs'))))))"

fun sst_strings :: "byte list list \<Rightarrow> int \<Rightarrow> nat \<Rightarrow> int \<Rightarrow> sst_state \<Rightarrow> error + sst_state" where
  "sst_strings data_tab n_strings 0 i st = Inr st"
| "sst_strings data_tab n_strings (Suc k) i st =
     (case sst_string data_tab n_strings i st of
        Inl e \<Rightarrow> Inl e
      | Inr st' \<Rightarrow> sst_strings data_tab n_strings k (i + 1) st')"

text \<open>\<open>unpack_SST_table\<close>: the strings, and the rich-text runs by the index of their string.\<close>

definition unpack_SST_table ::
  "byte list list \<Rightarrow> int \<Rightarrow> error + (ustring list \<times> (nat \<times> (int \<times> int) list) list)" where
  "unpack_SST_table data_tab n_strings =
     (case py_index data_tab 0 of
        Inl e \<Rightarrow> Inl e
      | Inr data \<Rightarrow>
          (case sst_strings data_tab n_strings (nat n_strings) 0 (0, data, 8, [], []) of
             Inl e \<Rightarrow> Inl e
           | Inr (datainx, data', pos, strings, richtext_runs) \<Rightarrow> Inr (strings, richtext_runs)))"

section \<open>compdoc.py: the lazy view of a fragmented stream\<close>

text \<open>
  \<open>bisect.bisect_left(a, x)\<close> of Python's standard library: the binary search
  \<open>while lo < hi: mid = (lo + hi) // 2; if a[mid] < x: lo = mid + 1 else: hi = mid\<close>,
  from \<open>lo = 0\<close> and \<open>hi = len(a)\<close>.
\<close>

function bisect_loop :: "int list \<Rightarrow> int \<Rightarrow> nat \<Rightarrow> nat \<Rightarrow> nat" where
  "bisect_loop a x lo hi =
     (if lo < hi
      then (let mid = (lo + hi) div 2
            in if a ! mid < x then bisect_loop a x (mid + 1) hi else bisect_loop a x lo mid)
      else lo)"
  by pat_completeness auto
termination
  by (relation "measure (\<lambda>(a, x, lo, hi). hi - lo)") auto

declare bisect_loop.simps [simp del]

definition bisect_left :: "int list \<Rightarrow> int \<Rightarrow> nat" where
  "bisect_left a x = bisect_loop a x 0 (length a)"

text \<open>
  \<open>ScatteredMemory\<close>: the fragments and the running sums of their sizes
  (\<open>__init__\<close>, lines 74 to 80).  The object reads the file \<open>filename\<close> through a
  memory map; \<open>m\<close> below is the content of that file, the byte sequence that the
  document was opened with.
\<close>

record ScatteredMemory =
  sm_slices :: "(int \<times> int) list"
  cum_sum :: "int list"

definition ScatteredMemory_init :: "(int \<times> int) list \<Rightarrow> ScatteredMemory" where
  "ScatteredMemory_init sl =
     (let sizes = map (\<lambda>(x, y). y - x) sl
      in \<lparr>sm_slices = sl,
          cum_sum = map (\<lambda>x. sum_list (take (x + 1) sizes)) [0..<length sizes]\<rparr>)"

text \<open>\<open>__getitem__\<close> with an integer (lines 91 to 95).\<close>

definition getitem_int :: "byte list \<Rightarrow> ScatteredMemory \<Rightarrow> int \<Rightarrow> error + byte" where
  "getitem_int m sm item =
     (let idx = bisect_left (cum_sum sm) item;
          item' = item - (if idx > 0 then cum_sum sm ! (idx - 1) else 0)
      in case py_index (sm_slices sm) (int idx) of
           Inl e \<Rightarrow> Inl e
         | Inr (start_pos, end_pos) \<Rightarrow> py_index m (start_pos + item'))"

text \<open>\<open>__getitem__\<close> with a slice \<open>start:stop\<close> of two integers and no step (lines 97
  to 110).\<close>

definition getitem_slice :: "byte list \<Rightarrow> ScatteredMemory \<Rightarrow> int \<Rightarrow> int \<Rightarrow> byte list" where
  "getitem_slice m sm start stop =
     (let len = stop - start;
          idx_0 = bisect_left (cum_sum sm) start;
          idx_1 = bisect_left (cum_sum sm) stop;
          d_start = (if idx_0 = 0 then 0 else cum_sum sm ! (idx_0 - 1));
          data = join_slices m (py_slice (sm_slices sm) (int idx_0) (int idx_1 + 1));
          start' = start - d_start
      in py_slice data start' (start' + len))"

section \<open>compdoc.py: streams by name\<close>

text \<open>
  Lines 317 to 319 and 331 to 333 of \<open>_get_stream\<close>: the check and the mark of a
  sector, when \<open>seen_id\<close> is given.
\<close>

definition mark_seen :: "int option \<Rightarrow> nat list \<Rightarrow> int \<Rightarrow> error + nat list" where
  "mark_seen seen_id seen s =
     (case seen_id of
        None \<Rightarrow> Inr seen
      | Some v \<Rightarrow>
          if \<not> nat s < length seen then Inl IndexError
          else if seen ! nat s \<noteq> 0 then Inl (CompDocError ''corruption: seen'')
          else if \<not> (0 \<le> v \<and> v \<le> 255) then Inl OverflowError
          else Inr (seen[nat s := nat v]))"

text \<open>
  Lines 328 to 343: the loop of \<open>_get_stream\<close> when a size is given.  With no
  \<open>seen_id\<close> nothing bounds the walk: on a table with a cycle the loop does not end, and
  the function has no value (\<open>None\<close>).
\<close>

partial_function (option) get_stream_loop ::
  "byte list \<Rightarrow> int \<Rightarrow> int list \<Rightarrow> int \<Rightarrow> int option \<Rightarrow> nat list \<Rightarrow> int \<Rightarrow> int
     \<Rightarrow> byte list list \<Rightarrow> (error + (nat list \<times> int \<times> int \<times> byte list list)) option" where
  "get_stream_loop m base sat sec_size seen_id seen s todo sectors =
     (if s \<ge> 0 then
        (case mark_seen seen_id seen s of
           Inl e \<Rightarrow> Some (Inl e)
         | Inr seen' \<Rightarrow>
             (case py_index sat s of
                Inl e \<Rightarrow> Some (Inl (CompDocError ''sector allocation table invalid entry''))
              | Inr nxt \<Rightarrow>
                  get_stream_loop m base sat sec_size seen_id seen' nxt
                    (todo - (if sec_size > todo then todo else sec_size))
                    (sectors @ [py_slice m (base + s * sec_size)
                                  (base + s * sec_size
                                   + (if sec_size > todo then todo else sec_size))])))
      else Some (Inr (seen, s, todo, sectors)))"

text \<open>
  \<open>_get_stream\<close> with a size.  Its argument \<open>mem\<close> (here \<open>memo\<close>) is \<open>None\<close> for the empty text that
  \<open>__init__\<close> stores as \<open>SSCS\<close> when the document has no short-stream container;
  joining slices of a text into bytes raises \<open>TypeError\<close>.
\<close>

definition get_stream ::
  "byte list option \<Rightarrow> int \<Rightarrow> int list \<Rightarrow> int \<Rightarrow> int \<Rightarrow> int \<Rightarrow> int option \<Rightarrow> nat list
     \<Rightarrow> (error + (nat list \<times> byte list)) option" where
  "get_stream memo base sat sec_size start_sid size_given seen_id seen =
     (case get_stream_loop (case memo of None \<Rightarrow> [] | Some m \<Rightarrow> m) base sat sec_size seen_id
             seen start_sid size_given [] of
        None \<Rightarrow> None
      | Some (Inl e) \<Rightarrow> Some (Inl e)
      | Some (Inr (seen', s, todo, sectors)) \<Rightarrow>
          if s \<noteq> EOCSID then Some (Inl AssertionError)
          else if memo = None \<and> sectors \<noteq> [] then Some (Inl TypeError)
          else Some (Inr (seen', concat sectors)))"

text \<open>The state of a \<open>CompDoc\<close> after \<open>__init__\<close>; the fields have the names
  of the attributes, after \<open>cd_\<close>.\<close>

record CompDoc =
  cd_mem :: "byte list"
  cd_SAT :: "int list"
  cd_sec_size :: int
  cd_SSCS :: "byte list option"
  cd_SSAT :: "int list"
  cd_short_sec_size :: int
  cd_dirlist :: "DirNode list"
  cd_mem_data_len :: int
  cd_min_size_std_stream :: int
  cd_seen :: "nat list"
  cd_ignore_workbook_corruption :: bool

text \<open>
  \<open>locate_named_stream\<close>.  The result is the new \<open>seen\<close> and the triple; the first
  component of the triple is \<open>None\<close> when no stream has the name.
\<close>

definition locate_named_stream ::
  "(ustring \<Rightarrow> ustring) \<Rightarrow> CompDoc \<Rightarrow> ustring
     \<Rightarrow> (error + (nat list \<times> buffer option \<times> int \<times> int)) option" where
  "locate_named_stream lower cd qname =
     (case dir_search lower (cd_dirlist cd) (split_slash qname) 0 of
        Inl e \<Rightarrow> Some (Inl e)
      | Inr None \<Rightarrow> Some (Inr (cd_seen cd, None, 0, 0))
      | Inr (Some d) \<Rightarrow>
          if tot_size d > cd_mem_data_len cd
          then Some (Inl (CompDocError ''stream length > file data size''))
          else if tot_size d \<ge> cd_min_size_std_stream cd then
            (case locate_stream (cd_mem cd) 512 (cd_SAT cd) (cd_sec_size cd) (first_SID d) (tot_size d)
                    (DID d + 6) (cd_ignore_workbook_corruption cd) (cd_seen cd) of
               Inl e \<Rightarrow> Some (Inl e)
             | Inr (seen', buf, off, len) \<Rightarrow> Some (Inr (seen', Some buf, off, len)))
          else
            (case get_stream (cd_SSCS cd) 0 (cd_SSAT cd) (cd_short_sec_size cd) (first_SID d) (tot_size d)
                    None (cd_seen cd) of
               None \<Rightarrow> None
             | Some (Inl e) \<Rightarrow> Some (Inl e)
             | Some (Inr (seen', stream)) \<Rightarrow> Some (Inr (seen', Some (Owned stream), 0, tot_size d))))"

section \<open>book.py: the global records\<close>

text \<open>
  The record codes of \<open>biffh.py\<close> that \<open>parse_globals\<close> tests, besides those of
  \<open>biffh\<close> above.
\<close>

record globals_codes =
  XL_SST :: int
  XL_FONT :: int
  XL_FONT_B3B4 :: int
  XL_FORMAT :: int
  XL_XF :: int
  XL_BOUNDSHEET :: int
  XL_CODEPAGE :: int
  XL_COUNTRY :: int
  XL_EXTERNNAME :: int
  XL_EXTERNSHEET :: int
  XL_WRITEACCESS :: int
  XL_SHEETSOFFSET :: int
  XL_SHEETHDR :: int
  XL_SUPBOOK :: int
  XL_NAME :: int
  XL_PALETTE :: int
  XL_STYLE :: int

text \<open>
  What \<open>parse_globals\<close> calls and the model does not follow: \<open>initialise_book\<close>,
  the handlers of fonts, formats, XF records, palette and styles and the two epilogues of
  \<open>formatting.py\<close>, \<open>hex_char_dump\<close> of \<open>biffh.py\<close> (\<open>None\<close> when it
  returns), and the other handlers of \<open>book.py\<close>.  Each is a parameter: a function of
  the payload and the book that raises or gives the book back.
\<close>

record 'sh handlers =
  initialise_book :: "'sh book \<Rightarrow> error + 'sh book"
  hex_char_dump :: "byte list \<Rightarrow> error option"
  handle_sst :: "byte list \<Rightarrow> 'sh book \<Rightarrow> error + 'sh book"
  handle_font :: "byte list \<Rightarrow> 'sh book \<Rightarrow> error + 'sh book"
  handle_format :: "byte list \<Rightarrow> 'sh book \<Rightarrow> error + 'sh book"
  handle_xf :: "byte list \<Rightarrow> 'sh book \<Rightarrow> error + 'sh book"
  handle_boundsheet :: "byte list \<Rightarrow> 'sh book \<Rightarrow> error + 'sh book"
  handle_country :: "byte list \<Rightarrow> 'sh book \<Rightarrow> error + 'sh book"
  handle_externname :: "byte list \<Rightarrow> 'sh book \<Rightarrow> error + 'sh book"
  handle_externsheet :: "byte list \<Rightarrow> 'sh book \<Rightarrow> error + 'sh book"
  handle_writeaccess :: "byte list \<Rightarrow> 'sh book \<Rightarrow> error + 'sh book"
  handle_sheetsoffset :: "byte list \<Rightarrow> 'sh book \<Rightarrow> error + 'sh book"
  handle_sheethdr :: "byte list \<Rightarrow> 'sh book \<Rightarrow> error + 'sh book"
  handle_supbook :: "byte list \<Rightarrow> 'sh book \<Rightarrow> error + 'sh book"
  handle_name :: "byte list \<Rightarrow> 'sh book \<Rightarrow> error + 'sh book"
  handle_palette :: "byte list \<Rightarrow> 'sh book \<Rightarrow> error + 'sh book"
  handle_style :: "byte list \<Rightarrow> 'sh book \<Rightarrow> error + 'sh book"
  xf_epilogue :: "'sh book \<Rightarrow> error + 'sh book"
  names_epilogue :: "'sh book \<Rightarrow> error + 'sh book"
  palette_epilogue :: "'sh book \<Rightarrow> error + 'sh book"

text \<open>The next statement runs when the one before has not raised.\<close>

definition and_then :: "error + 'a \<Rightarrow> ('a \<Rightarrow> error + 'b) \<Rightarrow> error + 'b" where
  "and_then r f = (case r of Inl e \<Rightarrow> Inl e | Inr x \<Rightarrow> f x)"

text \<open>
  \<open>handle_filepass\<close> (lines 861 to 878).  Every path ends in a \<open>raise\<close>: the last
  statement raises \<open>XLRDError\<close>, and with \<open>verbosity >= 2\<close> the dump and the calls of
  \<open>unpack\<close> before it can raise first.
\<close>

definition handle_filepass :: "'sh handlers \<Rightarrow> 'sh book \<Rightarrow> byte list \<Rightarrow> error + 'sh book" where
  "handle_filepass H bk data =
     (if verbosity bk \<ge> 2 then
        (case hex_char_dump H data of
           Some e \<Rightarrow> Inl e
         | None \<Rightarrow>
             if biff_version bk \<ge> 80 then
               and_then (unpack_H (py_slice data 0 2)) (\<lambda>kind1.
                 if kind1 = 0
                 then and_then (unpack_HH (py_slice data 2 (int (length data)))) (\<lambda>key_hash.
                        Inl (XLRDError ''Workbook is encrypted''))
                 else if kind1 = 1
                 then and_then (unpack_H (py_slice data 4 6)) (\<lambda>kind2.
                        Inl (XLRDError ''Workbook is encrypted''))
                 else Inl (XLRDError ''Workbook is encrypted''))
             else Inl (XLRDError ''Workbook is encrypted''))
      else Inl (XLRDError ''Workbook is encrypted''))"

text \<open>\<open>handle_datemode\<close> (lines 810 to 814) and \<open>handle_codepage\<close> (lines 797 to
  800).\<close>

definition handle_datemode :: "'sh book \<Rightarrow> byte list \<Rightarrow> error + 'sh book" where
  "handle_datemode bk data =
     and_then (unpack_H (py_slice data 0 2)) (\<lambda>datemode.
       if datemode = 0 \<or> datemode = 1 then Inr (bk\<lparr>date_mode := datemode\<rparr>)
       else Inl AssertionError)"

definition handle_codepage :: "biffh \<Rightarrow> codecs \<Rightarrow> 'sh book \<Rightarrow> byte list \<Rightarrow> error + 'sh book" where
  "handle_codepage K E bk data =
     and_then (unpack_H (py_slice data 0 2)) (\<lambda>cp.
       and_then (derive_encoding K E (bk\<lparr>codepage := Some cp\<rparr>)) (\<lambda>(enc, bk'). Inr bk'))"

text \<open>The branch of \<open>XL_EOF\<close> (lines 1165 to 1175): the epilogues, and the encoding when
  none is set.\<close>

definition globals_eof :: "'sh handlers \<Rightarrow> biffh \<Rightarrow> codecs \<Rightarrow> 'sh book \<Rightarrow> error + 'sh book" where
  "globals_eof H K E bk =
     and_then (xf_epilogue H bk) (\<lambda>bk1.
     and_then (names_epilogue H bk1) (\<lambda>bk2.
     and_then (palette_epilogue H bk2) (\<lambda>bk3.
       if encoding bk3 = None \<or> encoding bk3 = Some []
       then and_then (derive_encoding K E bk3) (\<lambda>(enc, bk4). Inr bk4)
       else Inr bk3)))"

text \<open>
  The body of the \<open>while True\<close> loop of \<open>parse_globals\<close> after the record is read
  (lines 1131 to 1179): the chain of tests of the record code, in the order of the source.
  The result is the book and whether the function returns.
\<close>

definition dispatch ::
  "'sh handlers \<Rightarrow> biffh \<Rightarrow> globals_codes \<Rightarrow> codecs \<Rightarrow> int \<Rightarrow> int \<Rightarrow> byte list \<Rightarrow> 'sh book
     \<Rightarrow> error + (bool \<times> 'sh book)" where
  "dispatch H K G E rc len data bk =
     (let go_on = (\<lambda>r. and_then r (\<lambda>bk'. Inr (False, bk'))) in
      if rc = XL_SST G then go_on (handle_sst H data bk)
      else if rc = XL_FONT G \<or> rc = XL_FONT_B3B4 G then go_on (handle_font H data bk)
      else if rc = XL_FORMAT G then go_on (handle_format H data bk)
      else if rc = XL_XF G then go_on (handle_xf H data bk)
      else if rc = XL_BOUNDSHEET G then go_on (handle_boundsheet H data bk)
      else if rc = XL_DATEMODE K then go_on (handle_datemode bk data)
      else if rc = XL_CODEPAGE G then go_on (handle_codepage K E bk data)
      else if rc = XL_COUNTRY G then go_on (handle_country H data bk)
      else if rc = XL_EXTERNNAME G then go_on (handle_externname H data bk)
      else if rc = XL_EXTERNSHEET G then go_on (handle_externsheet H data bk)
      else if rc = XL_FILEPASS K then go_on (handle_filepass H bk data)
      else if rc = XL_WRITEACCESS G then go_on (handle_writeaccess H data bk)
      else if rc = XL_SHEETSOFFSET G then go_on (handle_sheetsoffset H data bk)
      else if rc = XL_SHEETHDR G then go_on (handle_sheethdr H data bk)
      else if rc = XL_SUPBOOK G then go_on (handle_supbook H data bk)
      else if rc = XL_NAME G then go_on (handle_name H data bk)
      else if rc = XL_PALETTE G then go_on (handle_palette H data bk)
      else if rc = XL_STYLE G then go_on (handle_style H data bk)
      else if rc AND 0xff = 9 \<and> verbosity bk \<noteq> 0 then Inr (False, bk)
      else if rc = XL_EOF K then and_then (globals_eof H K E bk) (\<lambda>bk'. Inr (True, bk'))
      else Inr (False, bk))"

text \<open>One turn of the loop: the record is read, then dispatched.\<close>

definition globals_turn ::
  "'sh handlers \<Rightarrow> biffh \<Rightarrow> globals_codes \<Rightarrow> codecs \<Rightarrow> 'sh book \<Rightarrow> error + (bool \<times> 'sh book)" where
  "globals_turn H K G E bk =
     and_then (get_record_parts bk) (\<lambda>((rc, len, data), bk1). dispatch H K G E rc len data bk1)"

text \<open>
  The loop, and \<open>parse_globals\<close>.  The handlers are parameters and the loop has no
  bound of its own, so the function is partial: \<open>None\<close> is a loop that does not end.
\<close>

partial_function (option) globals_loop ::
  "'sh handlers \<Rightarrow> biffh \<Rightarrow> globals_codes \<Rightarrow> codecs \<Rightarrow> 'sh book \<Rightarrow> (error + 'sh book) option" where
  "globals_loop H K G E bk =
     (case globals_turn H K G E bk of
        Inl e \<Rightarrow> Some (Inl e)
      | Inr (fin, bk') \<Rightarrow> if fin then Some (Inr bk') else globals_loop H K G E bk')"

declare globals_loop.simps [code]

definition parse_globals ::
  "'sh handlers \<Rightarrow> biffh \<Rightarrow> globals_codes \<Rightarrow> codecs \<Rightarrow> 'sh book \<Rightarrow> (error + 'sh book) option" where
  "parse_globals H K G E bk =
     (case initialise_book H bk of
        Inl e \<Rightarrow> Some (Inl e)
      | Inr bk0 \<Rightarrow> globals_loop H K G E bk0)"

text \<open>The book after \<open>n\<close> turns of the loop that neither raise nor return, for the
  statement that a record is reached after any number of records.\<close>

fun globals_turns ::
  "'sh handlers \<Rightarrow> biffh \<Rightarrow> globals_codes \<Rightarrow> codecs \<Rightarrow> nat \<Rightarrow> 'sh book \<Rightarrow> 'sh book option" where
  "globals_turns H K G E 0 bk = Some bk"
| "globals_turns H K G E (Suc n) bk =
     (case globals_turn H K G E bk of
        Inr (False, bk') \<Rightarrow> globals_turns H K G E n bk'
      | _ \<Rightarrow> None)"

text \<open>The codes that the loop tests before \<open>XL_FILEPASS\<close>.\<close>

definition codes_before_filepass :: "biffh \<Rightarrow> globals_codes \<Rightarrow> int list" where
  "codes_before_filepass K G =
     [XL_SST G, XL_FONT G, XL_FONT_B3B4 G, XL_FORMAT G, XL_XF G, XL_BOUNDSHEET G, XL_DATEMODE K,
      XL_CODEPAGE G, XL_COUNTRY G, XL_EXTERNNAME G, XL_EXTERNSHEET G]"

section \<open>Concrete parameters for running the functions\<close>

text \<open>
  Values for the constants of \<open>biffh.py\<close> as the xlrd distribution has them, and a sheet
  decoder that fails; they serve to evaluate the functions on concrete inputs.
\<close>

definition biffh_xlrd :: biffh where
  "biffh_xlrd =
     \<lparr>bofcodes = [0x0809, 0x0409, 0x0209, 0x0009],
      boflen = [0x0809 \<mapsto> 8, 0x0409 \<mapsto> 6, 0x0209 \<mapsto> 6, 0x0009 \<mapsto> 4],
      biff_text_from_num = [80 \<mapsto> ''8'', 70 \<mapsto> ''7'', 50 \<mapsto> ''5'', 45 \<mapsto> ''4W'',
                            40 \<mapsto> ''4S'', 30 \<mapsto> ''3'', 21 \<mapsto> ''2.1'', 20 \<mapsto> ''2.0''],
      encoding_from_codepage = [1200 \<mapsto> ''utf_16_le'', 10000 \<mapsto> ''mac_roman'',
                                32768 \<mapsto> ''mac_roman'', 32769 \<mapsto> ''cp1252''],
      XL_WORKBOOK_GLOBALS = 0x5,
      XL_WORKBOOK_GLOBALS_4W = 0x100,
      XL_WORKSHEET = 0x10,
      XL_EOF = 0x0A,
      XL_FILEPASS = 0x2F,
      XL_DATEMODE = 0x22,
      XL_CONTINUE = 0x3C\<rparr>"

text \<open>A 16-bit value as two little-endian bytes, and a record of the stream: its code, the
  length of its payload, the payload.\<close>

definition le16 :: "int \<Rightarrow> byte list" where
  "le16 x = [word_of_int x, word_of_int (x div 256)]"

definition record_bytes :: "int \<Rightarrow> byte list \<Rightarrow> byte list" where
  "record_bytes code data = le16 code @ le16 (int (length data)) @ data"

text \<open>Two BOF records: a BIFF8 workbook-globals record, and one with a version word that is in no
  table.\<close>

definition biff8_bof :: "byte list" where
  "biff8_bof = record_bytes 0x0809 (le16 0x0600 @ le16 5 @ le16 0x0DBB @ le16 0x07CC)"

definition odd_bof :: "byte list" where
  "odd_bof = record_bytes 0x0809 (le16 0x1234 @ le16 5 @ le16 0x0DBB @ le16 0x07CC)"

text \<open>A codec registry that knows a few encodings and decodes no user name.\<close>

definition some_codecs :: codecs where
  "some_codecs =
     \<lparr>decode_trial = (\<lambda>enc. if enc \<in> {''utf_16_le'', ''mac_roman'', ''cp1252'', ''iso-8859-1'', ''cp1251''}
                              then None else Some LookupError),
      unpack_string = (\<lambda>data enc. Inl LookupError)\<rparr>"

text \<open>Lower case on the ASCII range, and text from an Isabelle string.\<close>

definition ascii_lower :: "ustring \<Rightarrow> ustring" where
  "ascii_lower = map (\<lambda>c. if 65 \<le> c \<and> c \<le> 90 then c + 32 else c)"

definition ustr :: "string \<Rightarrow> ustring" where
  "ustr = map of_char"

definition node0 :: DirNode where
  "node0 = \<lparr>DID = 0, name = [], etype = 0, colour = 0, left_DID = -1, right_DID = -1,
            root_DID = -1, first_SID = -2, tot_size = 0, children = [], parent = -1\<rparr>"

text \<open>A directory: the root entry, the stream \<open>Workbook\<close> and the storage \<open>Macros\<close>
  holding the stream \<open>VBA\<close>.\<close>

definition small_dir :: "DirNode list" where
  "small_dir =
     [node0\<lparr>DID := 0, name := ustr ''Root Entry'', etype := 5, children := [1, 2]\<rparr>,
      node0\<lparr>DID := 1, name := ustr ''Workbook'', etype := 2, first_SID := 0, tot_size := 4096, parent := 0\<rparr>,
      node0\<lparr>DID := 2, name := ustr ''Macros'', etype := 1, children := [3], parent := 0\<rparr>,
      node0\<lparr>DID := 3, name := ustr ''VBA'', etype := 2, first_SID := 8, tot_size := 4096, parent := 2\<rparr>]"

text \<open>
  A container with sectors of 8 bytes (two entries each) and four sectors: sector 0 is the
  SAT sector named by the header, sector 2 extends the MSAT by one entry (sector 1, a second
  SAT sector) and ends the chain, sector 3 holds data.  A second container whose extension
  sector names itself as the next one.
\<close>

definition le32 :: "int \<Rightarrow> byte list" where
  "le32 x = [word_of_int x, word_of_int (x div 256), word_of_int (x div 65536),
             word_of_int (x div 16777216)]"

definition tiny_header :: "byte list" where
  "tiny_header =
     SIGNATURE @ replicate 16 0 @ le16 0x3E @ le16 3 @ [0xFE, 0xFF] @ le16 3 @ le16 2
     @ replicate 10 0
     @ le32 2 @ le32 3 @ le32 0 @ le32 4096 @ le32 (-2) @ le32 0 @ le32 2 @ le32 1
     @ le32 0 @ concat (replicate 108 (le32 (-1)))"


definition looping_container :: "byte list" where
  "looping_container =
     tiny_header
     @ (le32 (-3) @ le32 (-3)) @ (le32 (-4) @ le32 (-2)) @ (le32 1 @ le32 2)
     @ (le32 0 @ le32 0)"


text \<open>A sector allocation table in which the chain from sector 0 is 0, 3, 1, 2 (two
  fragments and a run of two sectors), and a file of 560 bytes.\<close>

definition frag_sat :: "int list" where
  "frag_sat = [3, 2, -2, 1, -2, 0]"

definition frag_mem :: "byte list" where
  "frag_mem = replicate 560 7"

definition no_sheets :: "nat sheet_api" where
  "no_sheets = \<lparr>sheet_read = (\<lambda>bk p nm n. Inl TypeError), sheet_bool = (\<lambda>sh. True)\<rparr>"

text \<open>The first eight bytes of an SST record: the two counts of strings.\<close>

definition sst_header :: "byte list" where
  "sst_header = le32 1 @ le32 1"

text \<open>
  A file of 40 bytes whose byte at offset \<open>k\<close> is \<open>k\<close>.  A sector allocation table
  for sectors of one megabyte in which the chain from sector 0 runs through the sectors 0 to
  44 and 46 to 90 (sector 45 is free): a stream of 90 megabytes in two fragments, which are
  \<open>big_slices\<close>.
\<close>

definition bytes40 :: "byte list" where
  "bytes40 = map word_of_int [0..39]"

definition big_sat :: "int list" where
  "big_sat = map (\<lambda>i. i + 1) [0..43] @ [46, -1] @ map (\<lambda>i. i + 1) [46..89] @ [-2]"

definition big_slices :: "(int \<times> int) list" where
  "big_slices = [(512, 512 + 45 * 1048576), (512 + 46 * 1048576, 512 + 91 * 1048576)]"

text \<open>
  The other record codes as the xlrd distribution has them, handlers that give the book back
  unchanged, and a book at the start of a stream of global records.
\<close>

definition codes_xlrd :: globals_codes where
  "codes_xlrd =
     \<lparr>XL_SST = 0xFC, XL_FONT = 0x31, XL_FONT_B3B4 = 0x231, XL_FORMAT = 0x41E, XL_XF = 0xE0,
      XL_BOUNDSHEET = 0x85, XL_CODEPAGE = 0x42, XL_COUNTRY = 0x8C, XL_EXTERNNAME = 0x23,
      XL_EXTERNSHEET = 0x17, XL_WRITEACCESS = 0x5C, XL_SHEETSOFFSET = 0x8E, XL_SHEETHDR = 0x8F,
      XL_SUPBOOK = 0x1AE, XL_NAME = 0x18, XL_PALETTE = 0x92, XL_STYLE = 0x293\<rparr>"

definition idle_handlers :: "unit handlers" where
  "idle_handlers =
     \<lparr>initialise_book = Inr, hex_char_dump = (\<lambda>data. None),
      handle_sst = (\<lambda>data. Inr), handle_font = (\<lambda>data. Inr), handle_format = (\<lambda>data. Inr),
      handle_xf = (\<lambda>data. Inr), handle_boundsheet = (\<lambda>data. Inr), handle_country = (\<lambda>data. Inr),
      handle_externname = (\<lambda>data. Inr), handle_externsheet = (\<lambda>data. Inr),
      handle_writeaccess = (\<lambda>data. Inr), handle_sheetsoffset = (\<lambda>data. Inr),
      handle_sheethdr = (\<lambda>data. Inr), handle_supbook = (\<lambda>data. Inr), handle_name = (\<lambda>data. Inr),
      handle_palette = (\<lambda>data. Inr), handle_style = (\<lambda>data. Inr),
      xf_epilogue = Inr, names_epilogue = Inr, palette_epilogue = Inr\<rparr>"

definition globals_book :: "byte list \<Rightarrow> int \<Rightarrow> int \<Rightarrow> unit book" where
  "globals_book stream vers verb =
     Book_init\<lparr>mem := Some stream, biff_version := vers, verbosity := verb\<rparr>"

section \<open>Properties\<close>

subsection \<open>The record cursor at the end of the stream\<close>







subsection \<open>No loading of sheets after the release of resources\<close>

lemma get_sheet_released:
  "resources_released bk \<noteq> 0 \<Longrightarrow>
     get_sheet K S bk n u = Inl (XLRDError ''Can't load sheets after releasing resources.'')"
  by (simp add: get_sheet_def)

lemma py_index_nat: "i < length xs \<Longrightarrow> py_index xs (int i) = Inr (xs ! i)"
  by (simp add: py_index_def)

lemma sheets_loop_released:
  assumes "resources_released bk \<noteq> 0" and "\<forall>i \<in> set ixs. i < length (sheet_list bk)"
  shows "sheets_loop K S bk (map int ixs) =
           (if \<forall>i \<in> set ixs. entry_bool S (sheet_list bk ! i) then Inr bk
            else Inl (XLRDError ''Can't load sheets after releasing resources.''))"
  using assms
  by (induction ixs) (auto simp: py_index_nat get_sheet_released)

lemma released_release: "resources_released (release_resources bk) = 1"
  by (simp add: release_resources_def)

text \<open>
  Claim C10: after \<open>release_resources\<close>, every call of \<open>get_sheet\<close> raises
  \<open>XLRDError("Can't load sheets after releasing resources.")\<close>, and so do
  \<open>sheet_by_index\<close>, \<open>sheet_by_name\<close> and \<open>sheets\<close> for a sheet that is not in
  the cache; a sheet that is in the cache is still returned by \<open>sheet_by_index\<close>, the
  book unchanged.  (None of these calls changes the book, so the same holds for every later
  call.)
\<close>

theorem no_loading_after_release:
  fixes bk :: "'sh book"
  defines "rb \<equiv> release_resources bk"
  defines "err \<equiv> XLRDError ''Can't load sheets after releasing resources.''"
  shows "get_sheet K S rb n u = Inl err
    \<and> (py_index (sheet_list rb) i = Inr e \<and> \<not> entry_bool S e \<longrightarrow>
          sheet_by_index K S rb i = Inl err)
    \<and> (py_index (sheet_list rb) c = Inr (Some sh) \<and> sheet_bool S sh \<longrightarrow>
          sheet_by_index K S rb c = Inr (sh, rb))
    \<and> (list_index (sheet_names rb) nm = Some j \<and> j < length (sheet_list rb) \<and>
            \<not> entry_bool S (sheet_list rb ! j) \<longrightarrow>
          sheet_by_name K S rb nm = Inl err)
    \<and> (nat (nsheets rb) \<le> length (sheet_list rb) \<and>
         k < nat (nsheets rb) \<and> \<not> entry_bool S (sheet_list rb ! k) \<longrightarrow>
          sheets K S rb = Inl err)"
proof -
  have rel: "resources_released rb \<noteq> 0" by (simp add: rb_def released_release)
  have g: "get_sheet K S rb n u = Inl err" for n u
    using rel by (simp add: get_sheet_released err_def)
  have a: "sheet_by_index K S rb i = Inl err"
    if "py_index (sheet_list rb) i = Inr e" "\<not> entry_bool S e" for e i
    using that g by (auto simp: sheet_by_index_def entry_bool_def split: option.splits)
  have b: "sheet_by_index K S rb c = Inr (sh, rb)"
    if "py_index (sheet_list rb) c = Inr (Some sh)" "sheet_bool S sh"
    using that by (simp add: sheet_by_index_def)
  have c: "sheet_by_name K S rb nm = Inl err"
    if "list_index (sheet_names rb) nm = Some j" "j < length (sheet_list rb)"
       "\<not> entry_bool S (sheet_list rb ! j)"
    using that a[of "int j" "sheet_list rb ! j"] by (simp add: sheet_by_name_def py_index_nat)
  have d: "sheets K S rb = Inl err"
    if "nat (nsheets rb) \<le> length (sheet_list rb)"
       "k < nat (nsheets rb)" "\<not> entry_bool S (sheet_list rb ! k)"
  proof -
    have "sheets_loop K S rb (map int [0 ..< nat (nsheets rb)]) = Inl err"
      using that rel by (subst sheets_loop_released) (auto simp: err_def)
    then show ?thesis by (simp add: sheets_def)
  qed
  show ?thesis using g a b c d by blast
qed

theorem no_loading_after_release_witness:
  "sheet_by_index biffh_xlrd no_sheets
      (release_resources (Book_init\<lparr>sheet_list := [Some 7, None], sheet_names := [''a'', ''b''], nsheets := 2\<rparr>)) 0
     = Inr (7, release_resources (Book_init\<lparr>sheet_list := [Some 7, None], sheet_names := [''a'', ''b''], nsheets := 2\<rparr>))
   \<and> sheet_by_index biffh_xlrd no_sheets
      (release_resources (Book_init\<lparr>sheet_list := [Some 7, None], sheet_names := [''a'', ''b''], nsheets := 2\<rparr>)) 1
     = Inl (XLRDError ''Can't load sheets after releasing resources.'')
   \<and> sheet_by_name biffh_xlrd no_sheets
      (release_resources (Book_init\<lparr>sheet_list := [Some 7, None], sheet_names := [''a'', ''b''], nsheets := 2\<rparr>)) ''b''
     = Inl (XLRDError ''Can't load sheets after releasing resources.'')
   \<and> sheets biffh_xlrd no_sheets
      (release_resources (Book_init\<lparr>sheet_list := [Some 7, None], sheet_names := [''a'', ''b''], nsheets := 2\<rparr>))
     = Inl (XLRDError ''Can't load sheets after releasing resources.'')"
  using no_loading_after_release [of biffh_xlrd no_sheets
           "Book_init\<lparr>sheet_list := [Some 7, None], sheet_names := [''a'', ''b''], nsheets := 2\<rparr>"
            1 True 1 None 0 7 "''b''" 1 1]
  by (simp add: Book_init_def release_resources_def py_index_def no_sheets_def entry_bool_def)

subsection \<open>Version detection\<close>

lemma length_le16 [simp]: "length (le16 x) = 2"
  by (simp add: le16_def)

lemma le_uint_le16: "0 \<le> x \<Longrightarrow> x < 65536 \<Longrightarrow> le_uint (le16 x) = x"
  by (simp add: le16_def le_uint_def uint_word_of_int take_bit_eq_mod) 

lemma py_slice_mid:
  "a = int (length pre) \<Longrightarrow> b = a + int (length xs) \<Longrightarrow> py_slice (pre @ xs @ post) a b = xs"
  by (simp add: py_slice_def py_bound_def Let_def)

lemma get2bytes_at:
  assumes "mem bk = Some (pre @ le16 x @ post)" "position bk = int (length pre)"
    "0 \<le> x" "x < 65536"
  shows "get2bytes bk = Inr (x, bk\<lparr>position := int (length pre) + 2\<rparr>)"
proof -
  have "py_slice (pre @ le16 x @ post) (int (length pre)) (int (length pre) + 2) = le16 x"
    by (rule py_slice_mid) simp_all
  then show ?thesis using assms
    by (simp add: get2bytes_def mem_slice_def Let_def le_uint_le16 MY_EOF_def)
qed

lemma read_book_at:
  assumes "mem bk = Some (pre @ xs @ post)" "p = int (length pre)" "n = int (length xs)"
  shows "read_book bk p n = Inr (xs, bk\<lparr>position := p + n\<rparr>)"
  using assms py_slice_mid[of p pre "p + n" xs post]
  by (simp add: read_book_def mem_slice_def)

lemma bof_version_no8:
  "vone \<noteq> 8 \<Longrightarrow> bof_version vone vers build year = bof_version vone vers 0 0"
  by (simp add: bof_version_def)

lemma unpack_HH_le16:
  "0 \<le> a \<Longrightarrow> a < 65536 \<Longrightarrow> 0 \<le> b \<Longrightarrow> b < 65536 \<Longrightarrow> unpack_HH (le16 a @ le16 b) = Inr (a, b)"
  by (simp add: unpack_HH_def le_uint_le16)

lemma getbof_decode:
  fixes bk :: "'sh book"
  assumes m: "mem bk = Some (pre @ record_bytes opcode data @ post)"
    and p: "position bk = int (length pre)"
    and op: "opcode \<in> set (bofcodes K)" "0 \<le> opcode" "opcode < 65536" "boflen K opcode = Some bl"
    and len: "length data \<le> 20"
    and data: "data = le16 vers @ le16 streamtype @ tail"
    and tail: "opcode div 256 = 8 \<longrightarrow> tail = le16 build @ le16 year @ extra"
    and rng: "0 \<le> vers" "vers < 65536" "0 \<le> streamtype" "streamtype < 65536"
             "0 \<le> build" "build < 65536" "0 \<le> year" "year < 65536"
  shows "getbof K bk rqd =
           (case bof_result K rqd (bof_version (opcode div 256) vers build year) streamtype of
              Inl e \<Rightarrow> Inl e
            | Inr v \<Rightarrow> Inr (v, bk\<lparr>position := int (length pre) + 4 + int (length data)\<rparr>))"
proof -
  let ?n = "int (length data)"
  let ?bk1 = "bk\<lparr>position := int (length pre) + 2\<rparr>"
  let ?bkx = "bk\<lparr>position := int (length pre) + 4\<rparr>"
  let ?bk3 = "bk\<lparr>position := int (length pre) + 4 + ?n\<rparr>"
  let ?pad = "replicate (nat (max 0 (bl - ?n))) (0 :: byte)"
  have n8: "4 \<le> ?n" "?n \<le> 20" using len by (simp_all add: data)
  have g1: "get2bytes bk = Inr (opcode, ?bk1)"
    using m p op by (intro get2bytes_at[where post = "le16 ?n @ data @ post"])
                    (simp_all add: record_bytes_def)
  have g2: "get2bytes ?bk1 = Inr (?n, ?bk1\<lparr>position := int (length (pre @ le16 opcode)) + 2\<rparr>)"
    using m n8 by (intro get2bytes_at[where post = "data @ post"])
                  (simp_all add: record_bytes_def)
  then have g2': "get2bytes ?bk1 = Inr (?n, ?bkx)" by simp
  have r: "read_book ?bkx (position ?bkx) ?n = Inr (data, ?bkx\<lparr>position := position ?bkx + ?n\<rparr>)"
    using m by (intro read_book_at[where pre = "pre @ le16 opcode @ le16 ?n" and post = post])
               (simp_all add: record_bytes_def)
  then have r': "read_book ?bkx (int (length pre) + 4) ?n = Inr (data, ?bk3)" by simp
  have s04: "py_slice (data @ ?pad) 0 4 = le16 vers @ le16 streamtype"
    using py_slice_mid[of 0 "[]" 4 "le16 vers @ le16 streamtype" "tail @ ?pad"]
    by (simp add: data)
  have s48: "py_slice (data @ ?pad) 4 8 = le16 build @ le16 year" if "opcode div 256 = 8"
    using py_slice_mid[of 4 "le16 vers @ le16 streamtype" 8 "le16 build @ le16 year" "extra @ ?pad"]
      tail that
    by (simp add: data)
  have eof: "opcode \<noteq> MY_EOF" "?n \<noteq> MY_EOF" using op n8 by (simp_all add: MY_EOF_def)
  show ?thesis
  proof (cases "opcode div 256 = 8")
    case True
    then show ?thesis
      using g1 g2' r' s04 s48[OF True] eof op n8 rng
      by (simp add: getbof_def Let_def unpack_HH_le16 split: sum.splits)
  next
    case False
    then show ?thesis
      using g1 g2' r' s04 eof op n8 rng bof_version_no8[OF False, of vers build year]
      by (simp add: getbof_def Let_def unpack_HH_le16 split: sum.splits)
  qed
qed

lemma bof_version_range: "bof_version v1 va b y \<in> {0, 21, 30, 40, 50, 70, 80}"
  by (simp add: bof_version_def)

lemma bof_result_range: "bof_result K rqd vk st = Inr v \<Longrightarrow> v = vk \<or> v = 45"
  by (auto simp: bof_result_def bof_error_def Let_def split: if_splits)

lemma getbof_Inr:
  "getbof K bk rqd = Inr (v, bk') \<Longrightarrow>
     \<exists>v1 va b y st. bof_result K rqd (bof_version v1 va b y) st = Inr v"
  unfolding getbof_def bof_error_def Let_def
  by (auto split: sum.splits prod.splits if_splits option.splits; blast)

lemma getbof_range:
  assumes "getbof K bk rqd = Inr (v, bk')"
  shows "v \<in> {0, 21, 30, 40, 45, 50, 70, 80}"
proof -
  obtain v1 va b y st where "bof_result K rqd (bof_version v1 va b y) st = Inr v"
    using getbof_Inr[OF assms] by blast
  then have "v = bof_version v1 va b y \<or> v = 45" by (rule bof_result_range)
  then show ?thesis using bof_version_range[of v1 va b y] by auto
qed

lemma bof_result_same: "bof_result K st vk st = Inr (if vk = 40 \<and> st = XL_WORKBOOK_GLOBALS_4W K then 45 else vk)"
  by (simp add: bof_result_def Let_def)

lemma bof_result_4W: "bof_result K (XL_WORKBOOK_GLOBALS K) 40 (XL_WORKBOOK_GLOBALS_4W K) = Inr 45"
  by (simp add: bof_result_def Let_def)

lemma bof_result_workspace:
  "50 \<le> vk \<Longrightarrow> rqd \<noteq> 0x100 \<Longrightarrow>
   bof_result K rqd vk 0x100 =
     Inl (XLRDError ''Unsupported format, or corrupt file: Workspace file -- no spreadsheet data'')"
  by (auto simp: bof_result_def Let_def bof_error_def)

lemma bof_result_other:
  "st \<notin> {rqd, XL_WORKBOOK_GLOBALS K, XL_WORKBOOK_GLOBALS_4W K, XL_WORKSHEET K, 0x100} \<Longrightarrow>
   bof_result K rqd vk st =
     Inl (XLRDError ''Unsupported format, or corrupt file: BOF not workbook/worksheet'')"
  by (auto simp: bof_result_def Let_def bof_error_def)

lemma open_workbook_getbof_0:
  "getbof K bk (XL_WORKBOOK_GLOBALS K) = Inr (0, bk') \<Longrightarrow>
   open_workbook_getbof K bk = Inl (XLRDError ''Can't determine file's BIFF version'')"
  by (simp add: open_workbook_getbof_def)

text \<open>
  Claim C5 lists eight version identifiers that \<open>getbof\<close> maps byte patterns to, the
  last of them 20.  No byte pattern gives 20: whatever the constants of \<open>biffh.py\<close>, the
  stream and the requested stream kind, \<open>getbof\<close> never returns it.
\<close>

theorem getbof_never_20: "\<not> (\<exists>K (bk :: unit book) rqd bk'. getbof K bk rqd = Inr (20, bk'))"
  using getbof_range by fastforce

text \<open>
  Claim C5, as amended.  For a BOF record at the cursor (a known opcode, a payload of at most
  20 bytes holding the version word and the stream type, and for opcodes with high byte
  \<open>0x08\<close> the build and the year), \<open>getbof\<close> returns what the version table and the
  check of the stream kind give, the cursor after the record.  The table: with opcode high
  byte \<open>0x08\<close>, version word \<open>0x0600\<close> gives 80; \<open>0x0500\<close> gives 50 when the year
  is before 1994 or the build is 2412, 3218 or 3321, and 70 otherwise; \<open>0x0000\<close>,
  \<open>0x0007\<close> and \<open>0x0200\<close> give 21, \<open>0x0300\<close> gives 30, \<open>0x0400\<close> gives 40;
  opcode high bytes \<open>0x04\<close>, \<open>0x02\<close>, \<open>0x00\<close> give 40, 30, 21.  Version 40 with
  the 4W globals stream type, globals requested, gives 45.  A stream of the requested kind is
  accepted with its version.  A workspace stream (type \<open>0x0100\<close>, version at least 50,
  another kind requested) fails with "Workspace file -- no spreadsheet data"; a stream type
  that is none of the known kinds fails with the "Unsupported format, or corrupt file" error;
  a version word outside the table gives 0, which \<open>open_workbook_xls\<close> turns into the
  error "Can't determine file's BIFF version".  The identifiers \<open>getbof\<close> can return are
  the seven 80, 70, 50, 45, 40, 30, 21 (and 0); 20 is in \<open>SUPPORTED_VERSIONS\<close> but is
  never produced.
\<close>

theorem getbof_version_detection:
  fixes bk :: "'sh book" and bkx :: "'sh book"
  assumes m: "mem bk = Some (pre @ record_bytes opcode data @ post)"
    and p: "position bk = int (length pre)"
    and op: "opcode \<in> set (bofcodes K)" "0 \<le> opcode" "opcode < 65536" "boflen K opcode = Some bl"
    and len: "length data \<le> 20"
    and data: "data = le16 vers @ le16 streamtype @ tail"
    and tail: "opcode div 256 = 8 \<longrightarrow> tail = le16 build @ le16 year @ extra"
    and rng: "0 \<le> vers" "vers < 65536" "0 \<le> streamtype" "streamtype < 65536"
             "0 \<le> build" "build < 65536" "0 \<le> year" "year < 65536"
  shows "getbof K bk rqd =
           (case bof_result K rqd (bof_version (opcode div 256) vers build year) streamtype of
              Inl e \<Rightarrow> Inl e
            | Inr v \<Rightarrow> Inr (v, bk\<lparr>position := int (length pre) + 4 + int (length data)\<rparr>))
     \<and> bof_version 8 0x0600 b y = 80
     \<and> bof_version 8 0x0500 b y = (if y < 1994 \<or> b \<in> {2412, 3218, 3321} then 50 else 70)
     \<and> bof_version 8 0x0000 b y = 21 \<and> bof_version 8 0x0007 b y = 21
     \<and> bof_version 8 0x0200 b y = 21 \<and> bof_version 8 0x0300 b y = 30
     \<and> bof_version 8 0x0400 b y = 40
     \<and> bof_version 4 va b y = 40 \<and> bof_version 2 va b y = 30 \<and> bof_version 0 va b y = 21
     \<and> bof_result K (XL_WORKBOOK_GLOBALS K) 40 (XL_WORKBOOK_GLOBALS_4W K) = Inr 45
     \<and> bof_result K st vk st = Inr (if vk = 40 \<and> st = XL_WORKBOOK_GLOBALS_4W K then 45 else vk)
     \<and> (50 \<le> vw \<and> rq \<noteq> 0x100 \<longrightarrow>
          bof_result K rq vw 0x100 =
            Inl (XLRDError ''Unsupported format, or corrupt file: Workspace file -- no spreadsheet data''))
     \<and> (su \<notin> {ru, XL_WORKBOOK_GLOBALS K, XL_WORKBOOK_GLOBALS_4W K, XL_WORKSHEET K, 0x100} \<longrightarrow>
          bof_result K ru vu su =
            Inl (XLRDError ''Unsupported format, or corrupt file: BOF not workbook/worksheet''))
     \<and> (getbof K bkx (XL_WORKBOOK_GLOBALS K) = Inr (0, bkx') \<longrightarrow>
          open_workbook_getbof K bkx = Inl (XLRDError ''Can't determine file's BIFF version''))
     \<and> (getbof K bkx rx = Inr (w, bkx') \<longrightarrow> w \<in> {0, 21, 30, 40, 45, 50, 70, 80})"
  using getbof_decode[OF assms, of rqd] bof_result_same[of K st vk] bof_result_4W[of K]
    bof_result_workspace[of vw rq K] bof_result_other[of su ru K vu]
    open_workbook_getbof_0[of K bkx bkx'] getbof_range[of K bkx rx w bkx']
  by (simp add: bof_version_def)

theorem getbof_version_detection_witness:
  "getbof biffh_xlrd ((Book_init :: unit book)\<lparr>mem := Some biff8_bof\<rparr>) 5
     = Inr (80, (Book_init :: unit book)\<lparr>mem := Some biff8_bof, position := 12\<rparr>)
   \<and> bof_result biffh_xlrd 5 70 0x100 =
        Inl (XLRDError ''Unsupported format, or corrupt file: Workspace file -- no spreadsheet data'')
   \<and> bof_result biffh_xlrd 5 80 0x20 =
        Inl (XLRDError ''Unsupported format, or corrupt file: BOF not workbook/worksheet'')
   \<and> open_workbook_getbof biffh_xlrd ((Book_init :: unit book)\<lparr>mem := Some odd_bof\<rparr>)
     = Inl (XLRDError ''Can't determine file's BIFF version'')"
proof -
  let ?B = "(Book_init :: unit book)\<lparr>mem := Some biff8_bof\<rparr>"
  let ?X = "(Book_init :: unit book)\<lparr>mem := Some odd_bof\<rparr>"
  have ev: "getbof biffh_xlrd ?X (XL_WORKBOOK_GLOBALS biffh_xlrd) = Inr (0, ?X\<lparr>position := 12\<rparr>)"
    by code_simp
  have h1: "mem ?B = Some ([] @ record_bytes 0x0809 (le16 0x0600 @ le16 5 @ le16 0x0DBB @ le16 0x07CC) @ [])"
    by (simp add: biff8_bof_def)
  have h2: "position ?B = int (length ([] :: byte list))"
    by (simp add: Book_init_def)
  have h3: "0x0809 \<in> set (bofcodes biffh_xlrd)" "boflen biffh_xlrd 0x0809 = Some 8"
    by (simp_all add: biffh_xlrd_def)
  have h4: "length (le16 0x0600 @ le16 5 @ le16 0x0DBB @ le16 0x07CC) \<le> 20"
    by (simp add: le16_def)
  have h5: "(0x0809 :: int) div 256 = 8 \<longrightarrow> le16 0x0DBB @ le16 0x07CC = le16 0x0DBB @ le16 0x07CC @ []"
    by simp
  have k: "XL_WORKBOOK_GLOBALS biffh_xlrd = 5" "XL_WORKBOOK_GLOBALS_4W biffh_xlrd = 0x100"
      "XL_WORKSHEET biffh_xlrd = 0x10"
    by (simp_all add: biffh_xlrd_def)
  note T = getbof_version_detection [where K = biffh_xlrd and bk = ?B
      and pre = "[]" and post = "[]" and opcode = "0x0809" and bl = 8
      and data = "le16 0x0600 @ le16 5 @ le16 0x0DBB @ le16 0x07CC"
      and tail = "le16 0x0DBB @ le16 0x07CC" and extra = "[]"
      and vers = "0x0600" and streamtype = 5 and build = "0x0DBB" and year = "0x07CC"
      and rqd = 5 and vw = 70 and rq = 5 and su = "0x20" and ru = 5 and vu = 80
      and bkx = ?X and bkx' = "?X\<lparr>position := 12\<rparr>" and rx = 5 and w = 0,
      OF h1 h2 h3(1) _ _ h3(2) h4 _ h5]
  have T': "getbof biffh_xlrd ?B 5 =
           (case bof_result biffh_xlrd 5 (bof_version (0x0809 div 256) 0x0600 0x0DBB 0x07CC) 5 of
              Inl e \<Rightarrow> Inl e
            | Inr v \<Rightarrow> Inr (v, ?B\<lparr>position := int (length ([] :: byte list)) + 4
                 + int (length (le16 0x0600 @ le16 5 @ le16 0x0DBB @ le16 0x07CC))\<rparr>))"
    and W: "bof_result biffh_xlrd 5 70 0x100 =
        Inl (XLRDError ''Unsupported format, or corrupt file: Workspace file -- no spreadsheet data'')"
    and U: "bof_result biffh_xlrd 5 80 0x20 =
        Inl (XLRDError ''Unsupported format, or corrupt file: BOF not workbook/worksheet'')"
    and O: "open_workbook_getbof biffh_xlrd ?X = Inl (XLRDError ''Can't determine file's BIFF version'')"
    using T ev by (simp_all add: k)
  have "bof_result biffh_xlrd 5 (bof_version (0x0809 div 256) 0x0600 0x0DBB 0x07CC) 5 = Inr 80"
    by (simp add: bof_version_def bof_result_def k Let_def)
  with T' have "getbof biffh_xlrd ?B 5 = Inr (80, ?B\<lparr>position := 12\<rparr>)"
    by (simp add: le16_def)
  with W U O show ?thesis by simp
qed

subsection \<open>The derived encoding\<close>











subsection \<open>The lookup of a path in the directory\<close>

text \<open>
  What holds of \<open>_dir_search\<close>: names are compared through \<open>lower\<close> on both sides; a
  segment that matches no child gives \<open>None\<close>; a last segment that resolves to a storage
  raises; and a segment that resolves to a stream ends the search with that stream, whatever
  segments follow.
\<close>

lemma first_match_lower:
  "lower h = lower h' \<Longrightarrow> first_match lower dl cs h = first_match lower dl cs h'"
  by (induction cs) (auto split: sum.splits)

lemma dir_search_case_insensitive:
  "map lower path = map lower path' \<Longrightarrow>
     dir_search lower dl path sd = dir_search lower dl path' sd"
proof (induction path arbitrary: path' sd)
  case Nil
  then show ?case by simp
next
  case (Cons h t)
  then obtain h' t' where p: "path' = h' # t'" "lower h = lower h'" "map lower t = map lower t'"
    by (cases path') auto
  have t: "t = [] \<longleftrightarrow> t' = []" using p(3) by (metis map_is_Nil_conv)
  show ?case
    using Cons.IH[of t'] p(3) first_match_lower[of lower h h' dl] p(2) t
    by (auto simp: p(1) split: sum.splits option.splits)
qed

lemma dir_search_not_found:
  "py_index dl sd = Inr st \<Longrightarrow> first_match lower dl (children st) head = Inr None \<Longrightarrow>
     dir_search lower dl (head # tail) sd = Inr None"
  by simp

lemma dir_search_final_storage:
  "py_index dl sd = Inr st \<Longrightarrow> first_match lower dl (children st) head = Inr (Some child) \<Longrightarrow>
   py_index dl child = Inr node \<Longrightarrow> etype node = 1 \<Longrightarrow>
     dir_search lower dl [head] sd = Inl (CompDocError storage_msg)"
  by simp

lemma dir_search_stream_ignores_tail:
  "py_index dl sd = Inr st \<Longrightarrow> first_match lower dl (children st) head = Inr (Some child) \<Longrightarrow>
   py_index dl child = Inr node \<Longrightarrow> etype node = 2 \<Longrightarrow>
     dir_search lower dl (head # tail) sd = Inr (Some node)"
  by simp

text \<open>
  Claim C9 says that the lookup fails with an error when an interior segment of the path
  resolves to a stream.  The code returns the first stream it reaches and does not look at
  the rest of the path: in a directory whose root holds the stream \<open>Workbook\<close>, the path
  \<open>Workbook/nothing/here\<close> gives the entry of \<open>Workbook\<close> (of type 2, a stream), and
  no error.
\<close>

theorem dir_search_interior_stream:
  "dir_search ascii_lower small_dir (split_slash (ustr ''Workbook/nothing/here'')) 0
     = Inr (Some (small_dir ! 1))
   \<and> etype (small_dir ! 1) = 2
   \<and> split_slash (ustr ''Workbook/nothing/here'') = [ustr ''Workbook'', ustr ''nothing'', ustr ''here'']"
  by code_simp

subsection \<open>The master allocation table and the sector allocation table\<close>

lemma length_chunks4 [simp]: "length (chunks4 n bs) = n"
  by (induction n arbitrary: bs) auto


















lemma looping_tables_run: "CompDoc_tables looping_container = Inl (CompDocError ''MSAT corruption: seen'')"
  by code_simp


subsection \<open>The walk of a sector chain in \<open>_locate_stream\<close>\<close>

lemma locate_loop_strict_revisit:
  "s \<ge> 0 \<Longrightarrow> nat s < length seen \<Longrightarrow> seen ! nat s \<noteq> 0 \<Longrightarrow>
     locate_loop sat base sec_size False seen_id found_limit seen s p start_pos end_pos slices tot_found
       = Inl (CompDocError ''corruption: seen'')"
  by (subst locate_loop.simps) simp

lemma locate_loop_lenient_step:
  assumes "s \<ge> 0" "nat s < length seen" "0 \<le> seen_id" "seen_id \<le> 255"
    "tot_found + 1 \<le> found_limit" "py_index sat s = Inr nxt"
  shows "locate_loop sat base sec_size True seen_id found_limit seen s p start_pos end_pos slices tot_found
       = locate_loop sat base sec_size True seen_id found_limit (seen[nat s := nat seen_id]) nxt s
           (if s = p + 1 then start_pos else base + s * sec_size)
           (if s = p + 1 then end_pos + sec_size else base + s * sec_size + sec_size)
           (if s = p + 1 \<or> p < 0 then slices else slices @ [(start_pos, end_pos)])
           (tot_found + 1)"
  using assms by (subst locate_loop.simps) auto

lemma locate_loop_lenient_marks:
  "ignore \<Longrightarrow> length seen2 = length seen \<Longrightarrow>
     map_sum id snd (locate_loop sat base sec_size ignore seen_id found_limit seen s p start_pos end_pos slices tot_found)
   = map_sum id snd (locate_loop sat base sec_size ignore seen_id found_limit seen2 s p start_pos end_pos slices tot_found)"
proof (induction sat base sec_size ignore seen_id found_limit seen s p start_pos end_pos slices tot_found
        arbitrary: seen2 rule: locate_loop.induct)
  case (1 sat base sec_size ignore seen_id found_limit seen s p start_pos end_pos slices tot_found)
  note ig = "1.prems"(1) and len = "1.prems"(2)
  show ?case
  proof (cases "s \<ge> 0 \<and> nat s < length seen \<and> 0 \<le> seen_id \<and> seen_id \<le> 255
                \<and> tot_found + 1 \<le> found_limit")
    case False
    then show ?thesis
      using ig len
      by (subst locate_loop.simps, subst (2) locate_loop.simps) auto
  next
    case True
    show ?thesis
    proof (cases "py_index sat s")
      case (Inl e)
      then show ?thesis
        using True ig len
        by (subst locate_loop.simps, subst (2) locate_loop.simps) auto
    next
      case (Inr nxt)
      have l: "length (seen2[nat s := nat seen_id]) = length (seen[nat s := nat seen_id])"
        using len by simp
      show ?thesis
      proof (cases "s = p + 1")
        case c: True
        have "map_sum id snd (locate_loop sat base sec_size ignore seen_id found_limit
                 (seen[nat s := nat seen_id]) nxt s start_pos (end_pos + sec_size) slices (tot_found + 1))
            = map_sum id snd (locate_loop sat base sec_size ignore seen_id found_limit
                 (seen2[nat s := nat seen_id]) nxt s start_pos (end_pos + sec_size) slices (tot_found + 1))"
          using True Inr c ig by (intro "1.IH"(1)[OF _ _ _ _ _ Inr c ig l]) auto
        then show ?thesis
          using True Inr c ig len
          by (subst locate_loop.simps, subst (2) locate_loop.simps) auto
      next
        case c: False
        have "map_sum id snd (locate_loop sat base sec_size ignore seen_id found_limit
                 (seen[nat s := nat seen_id]) nxt s (base + s * sec_size) (base + s * sec_size + sec_size)
                 (if p \<ge> 0 then slices @ [(start_pos, end_pos)] else slices) (tot_found + 1))
            = map_sum id snd (locate_loop sat base sec_size ignore seen_id found_limit
                 (seen2[nat s := nat seen_id]) nxt s (base + s * sec_size) (base + s * sec_size + sec_size)
                 (if p \<ge> 0 then slices @ [(start_pos, end_pos)] else slices) (tot_found + 1))"
          using True Inr c ig by (intro "1.IH"(2)[OF _ _ _ _ _ Inr c ig l]) auto
        then show ?thesis
          using True Inr c ig len
          by (subst locate_loop.simps, subst (2) locate_loop.simps) auto
      qed
    qed
  qed
qed

lemma slices_total_append [simp]:
  "slices_total (xs @ [(a, b)]) = slices_total xs + (b - a)"
  by (simp add: slices_total_def)

lemma locate_loop_strict_lenient:
  "locate_loop sat base sec_size False seen_id found_limit seen s p start_pos end_pos slices tot_found = Inr r
   \<Longrightarrow> locate_loop sat base sec_size True seen_id found_limit seen s p start_pos end_pos slices tot_found = Inr r"
proof (induction sat base sec_size "False" seen_id found_limit seen s p start_pos end_pos slices tot_found
        rule: locate_loop.induct)
  case (1 sat base sec_size seen_id found_limit seen s p start_pos end_pos slices tot_found)
  show ?case
  proof (cases "s \<ge> 0")
    case False
    with "1.prems" show ?thesis
      by (subst locate_loop.simps, subst (asm) locate_loop.simps) auto
  next
    case True
    from "1.prems" True obtain nxt where
      c: "nat s < length seen" "seen ! nat s = 0" "0 \<le> seen_id" "seen_id \<le> 255"
         "\<not> tot_found + 1 > found_limit"
      and n: "py_index sat s = Inr nxt"
      by (subst (asm) locate_loop.simps) (auto split: if_splits sum.splits)
    show ?thesis
    proof (cases "s = p + 1")
      case e: True
      have "locate_loop sat base sec_size False seen_id found_limit (seen[nat s := nat seen_id]) nxt s
              start_pos (end_pos + sec_size) slices (tot_found + 1) = Inr r"
        using "1.prems" True c n e by (subst (asm) locate_loop.simps) auto
      from "1.hyps"(1)[OF True _ _ _ _ n e this] c
      have "locate_loop sat base sec_size True seen_id found_limit (seen[nat s := nat seen_id]) nxt s
              start_pos (end_pos + sec_size) slices (tot_found + 1) = Inr r" by simp
      then show ?thesis using True c n e by (subst locate_loop.simps) auto
    next
      case e: False
      have "locate_loop sat base sec_size False seen_id found_limit (seen[nat s := nat seen_id]) nxt s
              (base + s * sec_size) (base + s * sec_size + sec_size)
              (if p \<ge> 0 then slices @ [(start_pos, end_pos)] else slices) (tot_found + 1) = Inr r"
        using "1.prems" True c n e by (subst (asm) locate_loop.simps) auto
      from "1.hyps"(2)[OF True _ _ _ _ n e this] c
      have "locate_loop sat base sec_size True seen_id found_limit (seen[nat s := nat seen_id]) nxt s
              (base + s * sec_size) (base + s * sec_size + sec_size)
              (if p \<ge> 0 then slices @ [(start_pos, end_pos)] else slices) (tot_found + 1) = Inr r" by simp
      then show ?thesis using True c n e by (subst locate_loop.simps) auto
    qed
  qed
qed

lemma locate_loop_cover:
  assumes "locate_loop sat base sec_size ig seen_id found_limit seen s p start_pos end_pos slices tot_found
             = Inr (seen', s', start_pos', end_pos', slices', tot_found')"
    and "p \<ge> 0 \<longrightarrow> slices_total slices + (end_pos - start_pos) = tot_found * sec_size"
    and "p < 0 \<longrightarrow> p \<noteq> -1 \<and> slices_total slices = tot_found * sec_size"
    and "s \<ge> 0 \<or> p \<ge> 0"
  shows "slices_total slices' + (end_pos' - start_pos') = tot_found' * sec_size \<and> s' < 0
         \<and> tot_found' \<le> max tot_found found_limit \<and> length seen' = length seen"
  using assms
proof (induction sat base sec_size ig seen_id found_limit seen s p start_pos end_pos slices tot_found
        rule: locate_loop.induct)
  case (1 sat base sec_size ig seen_id found_limit seen s p start_pos end_pos slices tot_found)
  show ?case
  proof (cases "s \<ge> 0")
    case False
    with "1.prems" show ?thesis
      by (subst (asm) locate_loop.simps) auto
  next
    case True
    from "1.prems"(1) True obtain nxt where
      c: "nat s < length seen" "\<not> (seen ! nat s \<noteq> 0 \<and> \<not> ig)" "0 \<le> seen_id \<and> seen_id \<le> 255"
         "\<not> tot_found + 1 > found_limit"
      and n: "py_index sat s = Inr nxt"
      by (subst (asm) locate_loop.simps) (auto split: if_splits sum.splits)
    show ?thesis
    proof (cases "s = p + 1")
      case e: True
      have r: "locate_loop sat base sec_size ig seen_id found_limit (seen[nat s := nat seen_id]) nxt s
              start_pos (end_pos + sec_size) slices (tot_found + 1)
                 = Inr (seen', s', start_pos', end_pos', slices', tot_found')"
        using "1.prems"(1) True c n e by (subst (asm) locate_loop.simps) auto
      have p0: "p \<ge> 0" using e True "1.prems"(3) by auto
      have "slices_total slices' + (end_pos' - start_pos') = tot_found' * sec_size \<and> s' < 0
         \<and> tot_found' \<le> max (tot_found + 1) found_limit
         \<and> length seen' = length (seen[nat s := nat seen_id])"
        using "1.prems"(2) p0 True
        by (intro "1.IH"(1)[OF True _ _ _ _ n e r]) (use c in \<open>auto simp: algebra_simps\<close>)
      then show ?thesis using c by auto
    next
      case e: False
      have r: "locate_loop sat base sec_size ig seen_id found_limit (seen[nat s := nat seen_id]) nxt s
              (base + s * sec_size) (base + s * sec_size + sec_size)
              (if p \<ge> 0 then slices @ [(start_pos, end_pos)] else slices) (tot_found + 1)
                 = Inr (seen', s', start_pos', end_pos', slices', tot_found')"
        using "1.prems"(1) True c n e by (subst (asm) locate_loop.simps) auto
      have "slices_total slices' + (end_pos' - start_pos') = tot_found' * sec_size \<and> s' < 0
         \<and> tot_found' \<le> max (tot_found + 1) found_limit
         \<and> length seen' = length (seen[nat s := nat seen_id])"
        using "1.prems"(2,3) True
        by (intro "1.IH"(2)[OF True _ _ _ _ n e r]) (use c in \<open>auto simp: algebra_simps\<close>)
      then show ?thesis using c by auto
    qed
  qed
qed

lemma locate_loop_contiguous:
  assumes "locate_loop sat base sec_size ig seen_id found_limit seen s p start_pos end_pos slices tot_found
             = Inr (seen', s', start_pos', end_pos', slices', tot_found')"
    and "p \<ge> 0" and "slices' = []"
  shows "start_pos' = start_pos \<and> slices = []"
  using assms
proof (induction sat base sec_size ig seen_id found_limit seen s p start_pos end_pos slices tot_found
        rule: locate_loop.induct)
  case (1 sat base sec_size ig seen_id found_limit seen s p start_pos end_pos slices tot_found)
  show ?case
  proof (cases "s \<ge> 0")
    case False
    with "1.prems" show ?thesis
      by (subst (asm) locate_loop.simps) auto
  next
    case True
    from "1.prems"(1) True obtain nxt where
      c: "nat s < length seen" "\<not> (seen ! nat s \<noteq> 0 \<and> \<not> ig)" "0 \<le> seen_id \<and> seen_id \<le> 255"
         "\<not> tot_found + 1 > found_limit"
      and n: "py_index sat s = Inr nxt"
      by (subst (asm) locate_loop.simps) (auto split: if_splits sum.splits)
    show ?thesis
    proof (cases "s = p + 1")
      case e: True
      have r: "locate_loop sat base sec_size ig seen_id found_limit (seen[nat s := nat seen_id]) nxt s
              start_pos (end_pos + sec_size) slices (tot_found + 1)
                 = Inr (seen', s', start_pos', end_pos', slices', tot_found')"
        using "1.prems"(1) True c n e by (subst (asm) locate_loop.simps) auto
      show ?thesis
        using "1.IH"(1)[OF True _ _ _ _ n e r True "1.prems"(3)] c by auto
    next
      case e: False
      have r: "locate_loop sat base sec_size ig seen_id found_limit (seen[nat s := nat seen_id]) nxt s
              (base + s * sec_size) (base + s * sec_size + sec_size)
              (if p \<ge> 0 then slices @ [(start_pos, end_pos)] else slices) (tot_found + 1)
                 = Inr (seen', s', start_pos', end_pos', slices', tot_found')"
        using "1.prems"(1) True c n e by (subst (asm) locate_loop.simps) auto
      have "start_pos' = base + s * sec_size
            \<and> (if p \<ge> 0 then slices @ [(start_pos, end_pos)] else slices) = []"
        using "1.IH"(2)[OF True _ _ _ _ n e r True "1.prems"(3)] c by auto
      then show ?thesis using "1.prems"(2) by simp
    qed
  qed
qed

lemma locate_loop_first:
  assumes "locate_loop sat base sec_size ig seen_id found_limit seen s (-99) (-9999) (-8888) [] 0
             = Inr (seen', s', start_pos', end_pos', slices', tot_found')"
    and "s \<ge> 0" and "slices' = []"
  shows "start_pos' = base + s * sec_size"
proof -
  from assms(1,2) obtain nxt where
    r: "locate_loop sat base sec_size ig seen_id found_limit (seen[nat s := nat seen_id]) nxt s
              (base + s * sec_size) (base + s * sec_size + sec_size) [] 1
                 = Inr (seen', s', start_pos', end_pos', slices', tot_found')"
    by (subst (asm) locate_loop.simps) (auto split: if_splits sum.splits)
  from locate_loop_contiguous[OF r assms(2,3)] show ?thesis by simp
qed

lemma locate_stream_lenient_marks:
  assumes "length seen2 = length seen"
  shows "map_sum id snd (locate_stream m base sat sec_size start_sid expected seen_id True seen)
       = map_sum id snd (locate_stream m base sat sec_size start_sid expected seen_id True seen2)"
proof -
  let ?fl = "(expected + sec_size - 1) div sec_size"
  let ?l = "\<lambda>sn. locate_loop sat base sec_size True seen_id ?fl sn start_sid (-99) (-9999) (-8888) [] 0"
  have e: "map_sum id snd (?l seen) = map_sum id snd (?l seen2)"
    using assms by (intro locate_loop_lenient_marks) simp_all
  show ?thesis
  proof (cases "?l seen")
    case (Inl err)
    with e have "?l seen2 = Inl err" by (cases "?l seen2") auto
    with Inl show ?thesis by (simp add: locate_stream_def Let_def)
  next
    case (Inr r)
    with e obtain r2 where r2: "?l seen2 = Inr r2" "snd r2 = snd r" by (cases "?l seen2") auto
    obtain a b where ab: "r = (a, b)" by (cases r)
    obtain a2 where ab2: "r2 = (a2, b)" using r2(2) ab by (cases r2) auto
    show ?thesis
      using Inr r2(1) unfolding ab ab2
      by (cases b) (auto simp: locate_stream_def Let_def)
  qed
qed

lemma locate_stream_strict_lenient:
  assumes "locate_stream m base sat sec_size start_sid expected seen_id False seen = Inr r"
  shows "locate_stream m base sat sec_size start_sid expected seen_id True seen = Inr r"
proof -
  let ?fl = "(expected + sec_size - 1) div sec_size"
  from assms obtain q where
    q: "locate_loop sat base sec_size False seen_id ?fl seen start_sid (-99) (-9999) (-8888) [] 0 = Inr q"
    by (auto simp: locate_stream_def Let_def split: if_splits sum.splits)
  from locate_loop_strict_lenient[OF q] q assms show ?thesis
    by (auto simp: locate_stream_def Let_def split: if_splits)
qed

lemma locate_stream_whole:
  assumes "locate_stream m base sat sec_size start_sid expected seen_id ig seen = Inr (seen', buf, off, len)"
  shows "len = expected \<and> length seen' = length seen \<and>
         ((buf = Shared \<and> off = base + start_sid * sec_size) \<or>
          (\<exists>slices. slices \<noteq> [] \<and> off = 0
              \<and> slices_total slices = ((expected + sec_size - 1) div sec_size) * sec_size
              \<and> (if expected < 1024 * 1024 * 90 then buf = Owned (join_slices m slices)
                  else buf = Scattered slices)))"
proof -
  let ?fl = "(expected + sec_size - 1) div sec_size"
  from assms have s0: "start_sid \<ge> 0" by (auto simp: locate_stream_def split: if_splits)
  from assms obtain sn s sp ep sl where
    q: "locate_loop sat base sec_size ig seen_id ?fl seen start_sid (-99) (-9999) (-8888) [] 0
          = Inr (sn, s, sp, ep, sl, ?fl)"
    by (auto simp: locate_stream_def Let_def split: if_splits sum.splits)
  have cov: "slices_total sl + (ep - sp) = ?fl * sec_size \<and> length sn = length seen"
    using locate_loop_cover[OF q] s0 by (simp add: slices_total_def)
  show ?thesis
  proof (cases "sl = []")
    case True
    from locate_loop_first[OF q s0 True] True q assms cov show ?thesis
      by (auto simp: locate_stream_def Let_def split: if_splits)
  next
    case False
    let ?sl = "sl @ [(sp, ep)]"
    have b: "off = 0 \<and> len = expected \<and> sn = seen'
             \<and> (if expected < 1024 * 1024 * 90 then buf = Owned (join_slices m ?sl)
                 else buf = Scattered ?sl)"
      using False q assms by (auto simp: locate_stream_def Let_def split: if_splits)
    have t: "slices_total ?sl = ?fl * sec_size" using cov by simp
    have "\<exists>slices. slices \<noteq> [] \<and> off = 0 \<and> slices_total slices = ?fl * sec_size
              \<and> (if expected < 1024 * 1024 * 90 then buf = Owned (join_slices m slices)
                  else buf = Scattered slices)"
      using b t by (intro exI[of _ ?sl]) simp
    with b cov show ?thesis by blast
  qed
qed

lemma locate_loop_lenient_size:
  assumes "s \<ge> 0" "nat s < length seen" "0 \<le> seen_id" "seen_id \<le> 255" "found_limit < tot_found + 1"
  shows "locate_loop sat base sec_size True seen_id found_limit seen s p start_pos end_pos slices tot_found
       = Inl (CompDocError ''size exceeds expected'')"
  using assms by (subst locate_loop.simps) simp

lemma chain_sector_shift:
  "chain_sector sat (sat ! nat s) n = chain_sector sat s (Suc n)"
  by (induction n) simp_all

lemma locate_loop_endless:
  assumes "\<forall>k. 0 \<le> chain_sector sat s k \<and> chain_sector sat s k < int (length sat)
               \<and> nat (chain_sector sat s k) < length seen"
    and "0 \<le> seen_id" "seen_id \<le> 255"
  shows "locate_loop sat base sec_size True seen_id found_limit seen s p start_pos end_pos slices tot_found
       = Inl (CompDocError ''size exceeds expected'')"
  using assms
proof (induction sat base sec_size "True" seen_id found_limit seen s p start_pos end_pos slices tot_found
        rule: locate_loop.induct)
  case (1 sat base sec_size seen_id found_limit seen s p start_pos end_pos slices tot_found)
  from "1.prems"(1)[rule_format, of 0]
  have s: "0 \<le> s" "s < int (length sat)" "nat s < length seen" by simp_all
  show ?case
  proof (cases "found_limit < tot_found + 1")
    case True
    then show ?thesis using s "1.prems"(2,3) by (intro locate_loop_lenient_size) simp_all
  next
    case False
    have ix: "py_index sat s = Inr (sat ! nat s)" using s by (simp add: py_index_def)
    have nxt: "\<forall>k. 0 \<le> chain_sector sat (sat ! nat s) k \<and> chain_sector sat (sat ! nat s) k < int (length sat)
               \<and> nat (chain_sector sat (sat ! nat s) k) < length (seen[nat s := nat seen_id])"
      using "1.prems"(1) by (simp only: chain_sector_shift length_list_update) blast
    have c: "\<not> \<not> nat s < length seen" "\<not> (seen ! nat s \<noteq> 0 \<and> \<not> True)"
        "\<not> \<not> (0 \<le> seen_id \<and> seen_id \<le> 255)" "\<not> found_limit < tot_found + 1"
      using s "1.prems"(2,3) False by simp_all
    show ?thesis
    proof (cases "s = p + 1")
      case True
      have "locate_loop sat base sec_size True seen_id found_limit (seen[nat s := nat seen_id])
              (sat ! nat s) s start_pos (end_pos + sec_size) slices (tot_found + 1)
            = Inl (CompDocError ''size exceeds expected'')"
        using "1.hyps"(1)[OF s(1) c ix True nxt "1.prems"(2,3)] .
      then show ?thesis using s c ix True by (subst locate_loop.simps) simp
    next
      case False
      have "locate_loop sat base sec_size True seen_id found_limit (seen[nat s := nat seen_id])
              (sat ! nat s) s (base + s * sec_size) (base + s * sec_size + sec_size)
              (if p \<ge> 0 then slices @ [(start_pos, end_pos)] else slices) (tot_found + 1)
            = Inl (CompDocError ''size exceeds expected'')"
        using "1.hyps"(2)[OF s(1) c ix False nxt "1.prems"(2,3)] .
      then show ?thesis using s c ix False by (subst locate_loop.simps) simp
    qed
  qed
qed

lemma chain_sector_periodic:
  assumes "chain_sector sat s i = chain_sector sat s j"
  shows "chain_sector sat s (i + n) = chain_sector sat s (j + n)"
  using assms by (induction n) simp_all

lemma chain_sector_revisit:
  assumes "i < j" "chain_sector sat s i = chain_sector sat s j"
    and "\<forall>k\<le>j. P (chain_sector sat s k)"
  shows "P (chain_sector sat s k)"
proof (induction k rule: less_induct)
  case (less k)
  show ?case
  proof (cases "k \<le> j")
    case True
    then show ?thesis using assms(3) by simp
  next
    case False
    define n where "n = k - j"
    have k: "k = j + n" using False by (simp add: n_def)
    have "chain_sector sat s k = chain_sector sat s (i + n)"
      unfolding k using chain_sector_periodic[OF assms(2), of n] by simp
    moreover have "i + n < k" using assms(1) k by simp
    ultimately show ?thesis using less.IH by simp
  qed
qed

lemma locate_stream_lenient_revisit:
  assumes "i < j" "chain_sector sat start_sid i = chain_sector sat start_sid j"
    and "\<forall>k\<le>j. 0 \<le> chain_sector sat start_sid k \<and> chain_sector sat start_sid k < int (length sat)
                 \<and> nat (chain_sector sat start_sid k) < length seen"
    and "0 \<le> seen_id" "seen_id \<le> 255" "sec_size \<noteq> 0"
  shows "locate_stream m base sat sec_size start_sid expected seen_id True seen
       = Inl (CompDocError ''size exceeds expected'')"
proof -
  have all: "\<forall>k. 0 \<le> chain_sector sat start_sid k \<and> chain_sector sat start_sid k < int (length sat)
                 \<and> nat (chain_sector sat start_sid k) < length seen"
    using chain_sector_revisit[OF assms(1,2),
            of "\<lambda>x. 0 \<le> x \<and> x < int (length sat) \<and> nat x < length seen"] assms(3)
    by blast
  then have "0 \<le> start_sid" using all[rule_format, of 0] by simp
  then show ?thesis
    using locate_loop_endless[OF all assms(4,5)] assms(6)
    by (simp add: locate_stream_def Let_def)
qed

text \<open>
  Claim C3 says that in lenient mode a revisit raises no error and the walk goes on to decode
  the stream.  The loop keeps its other checks in lenient mode: a chain that comes back to
  one of its own sectors (here 0, 1, 0 for a stream of two sectors) is stopped at the revisit
  by the check of the size, with a \<open>CompDocError\<close>.
\<close>

theorem locate_stream_lenient_cycle:
  "locate_stream frag_mem 512 [1, 0, -2, -2, -2, -2] 8 0 16 9 True [0, 0, 0, 0, 0, 0]
     = Inl (CompDocError ''size exceeds expected'')
   \<and> [9, 9, 0, 0, 0, 0 :: nat] ! nat 0 \<noteq> 0
   \<and> locate_loop [1, 0, -2, -2, -2, -2] 512 8 True 9 2 [9, 9, 0, 0, 0, 0] 0 1 512 528 [] 2
     = Inl (CompDocError ''size exceeds expected'')"
  by code_simp

text \<open>
  Claim C3, as amended.  In strict mode, a walk that reaches a marked sector raises the
  corruption error.  In lenient mode the marks play no part: at a marked sector the loop
  does what it does at an unmarked one (it goes on to the next sector, provided the other
  checks of the loop pass: the mark fits a byte, the size is not exceeded, the sector has an
  entry in the table); the outcome of \<open>_locate_stream\<close> is the one it has when no
  sector is marked, so whatever strict mode locates in an unmarked file lenient mode locates
  in a marked one; and a stream that is located has its expected length and fragments that
  cover all its sectors: nothing is cut short.  The check of the size stays in lenient mode:
  the loop raises \<open>CompDocError\<close> (size exceeds expected) at a sector that would be one
  more than the expected size allows, and a walk along a chain that comes back to one of its
  own sectors always ends in that error (the sectors of the chain being inside the table and
  the array \<open>seen\<close>, the mark fitting a byte and the size of a sector not being 0).
\<close>

theorem locate_stream_revisit:
  "(s \<ge> 0 \<and> nat s < length seen \<and> seen ! nat s \<noteq> 0 \<longrightarrow>
      locate_loop sat base sec_size False seen_id found_limit seen s p start_pos end_pos slices tot_found
        = Inl (CompDocError ''corruption: seen''))
   \<and> (s \<ge> 0 \<and> nat s < length seen \<and> seen ! nat s \<noteq> 0 \<and> 0 \<le> seen_id \<and> seen_id \<le> 255 \<and>
       tot_found + 1 \<le> found_limit \<and> py_index sat s = Inr nxt \<longrightarrow>
      locate_loop sat base sec_size True seen_id found_limit seen s p start_pos end_pos slices tot_found
        = locate_loop sat base sec_size True seen_id found_limit (seen[nat s := nat seen_id]) nxt s
            (if s = p + 1 then start_pos else base + s * sec_size)
            (if s = p + 1 then end_pos + sec_size else base + s * sec_size + sec_size)
            (if s = p + 1 \<or> p < 0 then slices else slices @ [(start_pos, end_pos)])
            (tot_found + 1))
   \<and> map_sum id snd (locate_stream m base sat sec_size start_sid expected seen_id True marks)
       = map_sum id snd (locate_stream m base sat sec_size start_sid expected seen_id True
                           (replicate (length marks) 0))
   \<and> (locate_stream m base sat sec_size start_sid expected seen_id False (replicate (length marks) 0)
         = Inr (fresh, r) \<longrightarrow>
       (\<exists>marks'. locate_stream m base sat sec_size start_sid expected seen_id True marks
                   = Inr (marks', r)))
   \<and> (locate_stream m base sat sec_size start_sid expected seen_id True marks
         = Inr (seen_out, buf, off, len) \<longrightarrow>
       len = expected \<and>
       ((buf = Shared \<and> off = base + start_sid * sec_size) \<or>
        (\<exists>fragments. fragments \<noteq> [] \<and> off = 0
            \<and> slices_total fragments = ((expected + sec_size - 1) div sec_size) * sec_size
            \<and> (if expected < 1024 * 1024 * 90 then buf = Owned (join_slices m fragments)
                else buf = Scattered fragments))))
   \<and> (s \<ge> 0 \<and> nat s < length seen \<and> 0 \<le> seen_id \<and> seen_id \<le> 255 \<and> found_limit < tot_found + 1 \<longrightarrow>
      locate_loop sat base sec_size True seen_id found_limit seen s p start_pos end_pos slices tot_found
        = Inl (CompDocError ''size exceeds expected''))
   \<and> (i < j \<and> chain_sector sat start_sid i = chain_sector sat start_sid j
       \<and> (\<forall>k\<le>j. 0 \<le> chain_sector sat start_sid k \<and> chain_sector sat start_sid k < int (length sat)
                 \<and> nat (chain_sector sat start_sid k) < length marks)
       \<and> 0 \<le> seen_id \<and> seen_id \<le> 255 \<and> sec_size \<noteq> 0 \<longrightarrow>
      locate_stream m base sat sec_size start_sid expected seen_id True marks
        = Inl (CompDocError ''size exceeds expected''))"
proof -
  let ?clean = "replicate (length marks) (0 :: nat)"
  let ?len = "\<lambda>sn. locate_stream m base sat sec_size start_sid expected seen_id True sn"
  have A: "locate_loop sat base sec_size False seen_id found_limit seen s p start_pos end_pos slices tot_found
        = Inl (CompDocError ''corruption: seen'')"
    if "s \<ge> 0" "nat s < length seen" "seen ! nat s \<noteq> 0"
    using that by (rule locate_loop_strict_revisit)
  have B: "locate_loop sat base sec_size True seen_id found_limit seen s p start_pos end_pos slices tot_found
        = locate_loop sat base sec_size True seen_id found_limit (seen[nat s := nat seen_id]) nxt s
            (if s = p + 1 then start_pos else base + s * sec_size)
            (if s = p + 1 then end_pos + sec_size else base + s * sec_size + sec_size)
            (if s = p + 1 \<or> p < 0 then slices else slices @ [(start_pos, end_pos)])
            (tot_found + 1)"
    if "s \<ge> 0" "nat s < length seen" "0 \<le> seen_id" "seen_id \<le> 255"
       "tot_found + 1 \<le> found_limit" "py_index sat s = Inr nxt"
    using that by (rule locate_loop_lenient_step)
  have C: "map_sum id snd (?len marks) = map_sum id snd (?len ?clean)"
    by (rule locate_stream_lenient_marks) simp
  have D: "\<exists>marks'. ?len marks = Inr (marks', r)"
    if "locate_stream m base sat sec_size start_sid expected seen_id False ?clean = Inr (fresh, r)"
  proof -
    have "?len ?clean = Inr (fresh, r)" using that by (rule locate_stream_strict_lenient)
    with C have "map_sum id snd (?len marks) = Inr r" by simp
    then show ?thesis by (cases "?len marks") auto
  qed
  note E = locate_stream_whole[of m base sat sec_size start_sid expected seen_id True marks seen_out buf off len]
  have F: "locate_loop sat base sec_size True seen_id found_limit seen s p start_pos end_pos slices tot_found
        = Inl (CompDocError ''size exceeds expected'')"
    if "s \<ge> 0" "nat s < length seen" "0 \<le> seen_id" "seen_id \<le> 255" "found_limit < tot_found + 1"
    using that by (rule locate_loop_lenient_size)
  have G: "?len marks = Inl (CompDocError ''size exceeds expected'')"
    if "i < j" "chain_sector sat start_sid i = chain_sector sat start_sid j"
       "\<forall>k\<le>j. 0 \<le> chain_sector sat start_sid k \<and> chain_sector sat start_sid k < int (length sat)
                 \<and> nat (chain_sector sat start_sid k) < length marks"
       "0 \<le> seen_id" "seen_id \<le> 255" "sec_size \<noteq> 0"
    using that by (rule locate_stream_lenient_revisit)
  show ?thesis
    apply (intro conjI impI)
    subgoal using A by blast
    subgoal using B by blast
    subgoal using C by blast
    subgoal using D by blast
    subgoal using E by blast
    subgoal using E by blast
    subgoal using F by blast
    subgoal using G by blast
    done
qed

theorem locate_stream_revisit_witness:
  "locate_loop frag_sat 512 8 False 9 4 [9, 9, 3, 9, 0, 0] 2 1 520 528 [(512, 520), (536, 544)] 3
     = Inl (CompDocError ''corruption: seen'')
   \<and> (\<exists>marks'. locate_stream frag_mem 512 frag_sat 8 0 30 9 True [0, 0, 3, 0, 0, 0]
                  = Inr (marks', Owned (replicate 32 7), 0, 30))
   \<and> locate_stream frag_mem 512 frag_sat 8 0 30 9 False [0, 0, 3, 0, 0, 0]
       = Inl (CompDocError ''corruption: seen'')
   \<and> locate_loop frag_sat 512 8 True 9 2 [9, 9, 3, 9, 0, 0] 2 1 520 528 [(512, 520), (536, 544)] 3
       = Inl (CompDocError ''size exceeds expected'')
   \<and> locate_stream frag_mem 512 [2, 0, 1, -2, -2, -2] 8 0 30 9 True [0, 0, 3, 0, 0, 0]
       = Inl (CompDocError ''size exceeds expected'')"
proof -
  note T = locate_stream_revisit [where s = 2 and seen = "[9, 9, 3, 9, 0, 0]" and sat = frag_sat
      and base = 512 and sec_size = 8 and seen_id = 9 and found_limit = 4 and p = 1
      and start_pos = 520 and end_pos = 528 and slices = "[(512, 520), (536, 544)]"
      and tot_found = 3 and nxt = "-2" and m = frag_mem and start_sid = 0 and expected = 30
      and marks = "[0, 0, 3, 0, 0, 0]" and fresh = "[9, 9, 9, 9, 0, 0]"
      and r = "(Owned (replicate 32 7), 0, 30)" and seen_out = "[9, 9, 9, 9, 0, 0]"
      and buf = "Owned (replicate 32 7)" and off = 0 and len = 30 and i = 0 and j = 3]
  note U = locate_stream_revisit [where s = 2 and seen = "[9, 9, 3, 9, 0, 0]"
      and sat = "[2, 0, 1, -2, -2, -2]"
      and base = 512 and sec_size = 8 and seen_id = 9 and found_limit = 2 and p = 1
      and start_pos = 520 and end_pos = 528 and slices = "[(512, 520), (536, 544)]"
      and tot_found = 3 and nxt = "-2" and m = frag_mem and start_sid = 0 and expected = 30
      and marks = "[0, 0, 3, 0, 0, 0]" and fresh = "[9, 9, 9, 9, 0, 0]"
      and r = "(Owned (replicate 32 7), 0, 30)" and seen_out = "[9, 9, 9, 9, 0, 0]"
      and buf = "Owned (replicate 32 7)" and off = 0 and len = 30 and i = 0 and j = 3]
  have 1: "locate_loop frag_sat 512 8 False 9 4 [9, 9, 3, 9, 0, 0] 2 1 520 528 [(512, 520), (536, 544)] 3
     = Inl (CompDocError ''corruption: seen'')"
    by (rule T[THEN conjunct1, THEN mp]) simp
  have f: "locate_stream frag_mem 512 frag_sat 8 0 30 9 False (replicate (length [0, 0, 3, 0, 0, 0 :: nat]) 0)
             = Inr ([9, 9, 9, 9, 0, 0], Owned (replicate 32 7), 0, 30)"
    by code_simp
  have 2: "\<exists>marks'. locate_stream frag_mem 512 frag_sat 8 0 30 9 True [0, 0, 3, 0, 0, 0]
                  = Inr (marks', Owned (replicate 32 7), 0, 30)"
    by (rule T[THEN conjunct2, THEN conjunct2, THEN conjunct2, THEN conjunct1, THEN mp]) (rule f)
  have 3: "locate_stream frag_mem 512 frag_sat 8 0 30 9 False [0, 0, 3, 0, 0, 0]
       = Inl (CompDocError ''corruption: seen'')"
    by code_simp
  have c: "chain_sector [2, 0, 1, -2, -2, -2] 0 0 = 0" "chain_sector [2, 0, 1, -2, -2, -2] 0 1 = 2"
      "chain_sector [2, 0, 1, -2, -2, -2] 0 2 = 1" "chain_sector [2, 0, 1, -2, -2, -2] 0 3 = 0"
    by (simp_all add: numeral_2_eq_2 numeral_3_eq_3)
  have v: "\<forall>k\<le>3. 0 \<le> chain_sector [2, 0, 1, -2, -2, -2] 0 k
              \<and> chain_sector [2, 0, 1, -2, -2, -2] 0 k < int (length [2, 0, 1, -2, -2, -2 :: int])
              \<and> nat (chain_sector [2, 0, 1, -2, -2, -2] 0 k) < length [0, 0, 3, 0, 0, 0 :: nat]"
  proof (intro allI impI)
    fix k :: nat assume "k \<le> 3"
    then consider "k = 0" | "k = 1" | "k = 2" | "k = 3" by linarith
    then show "0 \<le> chain_sector [2, 0, 1, -2, -2, -2] 0 k
              \<and> chain_sector [2, 0, 1, -2, -2, -2] 0 k < int (length [2, 0, 1, -2, -2, -2 :: int])
              \<and> nat (chain_sector [2, 0, 1, -2, -2, -2] 0 k) < length [0, 0, 3, 0, 0, 0 :: nat]"
      by cases (simp_all only: c, simp_all)
  qed
  have 5: "locate_stream frag_mem 512 [2, 0, 1, -2, -2, -2] 8 0 30 9 True [0, 0, 3, 0, 0, 0]
       = Inl (CompDocError ''size exceeds expected'')"
    by (rule U[THEN conjunct2, THEN conjunct2, THEN conjunct2, THEN conjunct2, THEN conjunct2,
               THEN conjunct2, THEN mp])
       (use v c in simp)
  have 4: "locate_loop frag_sat 512 8 True 9 2 [9, 9, 3, 9, 0, 0] 2 1 520 528 [(512, 520), (536, 544)] 3
       = Inl (CompDocError ''size exceeds expected'')"
    by (rule locate_stream_revisit [where s = 2 and seen = "[9, 9, 3, 9, 0, 0]" and sat = frag_sat
      and base = 512 and sec_size = 8 and seen_id = 9 and found_limit = 2 and p = 1
      and start_pos = 520 and end_pos = 528 and slices = "[(512, 520), (536, 544)]"
      and tot_found = 3, THEN conjunct2, THEN conjunct2, THEN conjunct2, THEN conjunct2, THEN conjunct2,
               THEN conjunct1, THEN mp]) simp
  from 1 2 3 4 5 show ?thesis by blast
qed

subsection \<open>A shared string split between two records\<close>

text \<open>
  Claim C6 says that a string whose characters are split at the boundary of a continuation
  record decodes to the same text as the unsplit string, also when it holds characters that
  need a surrogate pair.  The code decodes the part of each fragment on its own: for the
  string of the one character U+1F600 (the units D83D, DE00; \<open>nchars\<close> is 2), the unsplit
  record gives the character, and the split after the first unit raises
  \<open>UnicodeDecodeError\<close>, the first fragment ending in a high surrogate.
\<close>

theorem unpack_SST_table_split_surrogate:
  "unpack_SST_table [sst_header @ le16 2 @ [1, 0x3D, 0xD8, 0x00, 0xDE]] 1 = Inr ([[0x1F600]], [])
   \<and> unpack_SST_table [sst_header @ le16 2 @ [1, 0x3D, 0xD8], [1, 0x00, 0xDE]] 1
       = Inl UnicodeDecodeError"
  by code_simp

subsection \<open>The lazy view of a fragmented stream\<close>

lemma bisect_loop_spec:
  assumes "sorted a" "lo \<le> hi" "hi \<le> length a"
    and "\<forall>i<lo. a ! i < x" and "\<forall>i. hi \<le> i \<and> i < length a \<longrightarrow> x \<le> a ! i"
  shows "bisect_loop a x lo hi \<le> length a
       \<and> (\<forall>i<bisect_loop a x lo hi. a ! i < x)
       \<and> (\<forall>i. bisect_loop a x lo hi \<le> i \<and> i < length a \<longrightarrow> x \<le> a ! i)"
  using assms
proof (induction a x lo hi rule: bisect_loop.induct)
  case (1 a x lo hi)
  show ?case
  proof (cases "lo < hi")
    case False
    then have "bisect_loop a x lo hi = lo" by (subst bisect_loop.simps) simp
    moreover have "lo = hi" using False "1.prems"(2) by simp
    ultimately show ?thesis using "1.prems" by auto
  next
    case True
    let ?mid = "(lo + hi) div 2"
    have mid: "lo \<le> ?mid" "?mid < hi" using True by auto
    show ?thesis
    proof (cases "a ! ?mid < x")
      case lt: True
      have eq: "bisect_loop a x lo hi = bisect_loop a x (?mid + 1) hi"
        using True lt by (subst bisect_loop.simps) (simp add: Let_def)
      have below: "\<forall>i<?mid + 1. a ! i < x"
      proof (intro allI impI)
        fix i assume "i < ?mid + 1"
        then have "i \<le> ?mid" by simp
        moreover have "?mid < length a" using mid "1.prems"(3) by simp
        ultimately have "a ! i \<le> a ! ?mid" using "1.prems"(1) by (simp add: sorted_iff_nth_mono)
        then show "a ! i < x" using lt by simp
      qed
      have "?mid + 1 \<le> hi" using mid by simp
      from "1.IH"(1)[OF True refl lt "1.prems"(1) this "1.prems"(3) below "1.prems"(5)]
      show ?thesis using eq by simp
    next
      case ge: False
      have eq: "bisect_loop a x lo hi = bisect_loop a x lo ?mid"
        using True ge by (subst bisect_loop.simps) (simp add: Let_def)
      have above: "\<forall>i. ?mid \<le> i \<and> i < length a \<longrightarrow> x \<le> a ! i"
      proof (intro allI impI)
        fix i assume "?mid \<le> i \<and> i < length a"
        then have "a ! ?mid \<le> a ! i" using "1.prems"(1) by (simp add: sorted_iff_nth_mono)
        then show "x \<le> a ! i" using ge by simp
      qed
      have "?mid \<le> length a" using mid "1.prems"(3) by simp
      from "1.IH"(2)[OF True refl ge "1.prems"(1) mid(1) this "1.prems"(4) above]
      show ?thesis using eq by simp
    qed
  qed
qed

lemma bisect_left_at:
  assumes "sorted_wrt (<) a" "k < length a"
  shows "bisect_left a (a ! k) = k"
proof -
  have s: "sorted a" using assms(1) by (simp add: strict_sorted_imp_sorted)
  let ?r = "bisect_left a (a ! k)"
  have spec: "?r \<le> length a \<and> (\<forall>i<?r. a ! i < a ! k)
            \<and> (\<forall>i. ?r \<le> i \<and> i < length a \<longrightarrow> a ! k \<le> a ! i)"
    unfolding bisect_left_def using bisect_loop_spec[OF s, of 0 "length a" "a ! k"] by simp
  have "\<not> k < ?r" using spec by auto
  moreover have "\<not> ?r < k"
  proof
    assume lt: "?r < k"
    then have "a ! ?r < a ! k" using assms by (simp add: sorted_wrt_iff_nth_less)
    moreover have "a ! k \<le> a ! ?r" using spec lt assms(2) by auto
    ultimately show False by simp
  qed
  ultimately show ?thesis by simp
qed

lemma sum_list_take_less:
  fixes sizes :: "int list"
  assumes "\<forall>s\<in>set sizes. 0 < s" "i < j" "j \<le> length sizes"
  shows "sum_list (take i sizes) < sum_list (take j sizes)"
proof -
  have "take j sizes = take i sizes @ take (j - i) (drop i sizes)"
    using assms(2) by (metis add_diff_inverse_nat less_imp_le_nat not_less take_add)
  moreover have "0 < sum_list (take (j - i) (drop i sizes))"
  proof -
    have ne: "take (j - i) (drop i sizes) \<noteq> []" using assms(2,3) by auto
    have pos: "\<forall>s\<in>set (take (j - i) (drop i sizes)). 0 < s"
      using assms(1) by (meson in_set_dropD in_set_takeD)
    obtain y ys where c: "take (j - i) (drop i sizes) = y # ys" using ne by (cases "take (j - i) (drop i sizes)") auto
    have "0 < y" using pos c by simp
    moreover have "0 \<le> sum_list ys" using pos c by (intro sum_list_nonneg) (simp add: less_imp_le)
    ultimately show ?thesis using c by simp
  qed
  ultimately show ?thesis by simp
qed

lemma length_cum_sum [simp]: "length (cum_sum (ScatteredMemory_init sl)) = length sl"
  by (simp add: ScatteredMemory_init_def)

lemma sm_slices_init [simp]: "sm_slices (ScatteredMemory_init sl) = sl"
  by (simp add: ScatteredMemory_init_def)

lemma cum_sum_nth:
  "k < length sl \<Longrightarrow>
   cum_sum (ScatteredMemory_init sl) ! k = sum_list (take (k + 1) (map (\<lambda>(x, y). y - x) sl))"
  by (simp add: ScatteredMemory_init_def)

lemma cum_sum_increasing:
  assumes "\<forall>(x, y)\<in>set sl. x < y"
  shows "sorted_wrt (<) (cum_sum (ScatteredMemory_init sl))"
proof -
  have pos: "\<forall>s\<in>set (map (\<lambda>(x, y). y - x) sl). 0 < s" using assms by auto
  show ?thesis
    unfolding sorted_wrt_iff_nth_less
  proof (intro allI impI)
    fix i j assume "i < j" and "j < length (cum_sum (ScatteredMemory_init sl))"
    then have ij: "i < j" "j < length sl" by simp_all
    then have "sum_list (take (i + 1) (map (\<lambda>(x, y). y - x) sl))
             < sum_list (take (j + 1) (map (\<lambda>(x, y). y - x) sl))"
      by (intro sum_list_take_less[OF pos]) simp_all
    then show "cum_sum (ScatteredMemory_init sl) ! i < cum_sum (ScatteredMemory_init sl) ! j"
      using ij by (simp add: cum_sum_nth)
  qed
qed

lemma cum_sum_step:
  assumes "k < length sl"
  shows "cum_sum (ScatteredMemory_init sl) ! k
         - (if k > 0 then cum_sum (ScatteredMemory_init sl) ! (k - 1) else 0)
       = snd (sl ! k) - fst (sl ! k)"
proof -
  let ?sizes = "map (\<lambda>(x, y). y - x) sl"
  have "take (k + 1) ?sizes = take k ?sizes @ [?sizes ! k]"
    using assms by (simp add: take_Suc_conv_app_nth)
  then have "sum_list (take (k + 1) ?sizes) = sum_list (take k ?sizes) + ?sizes ! k" by simp
  moreover have "?sizes ! k = snd (sl ! k) - fst (sl ! k)" using assms by (simp add: case_prod_beta)
  moreover have "k > 0 \<Longrightarrow> cum_sum (ScatteredMemory_init sl) ! (k - 1) = sum_list (take k ?sizes)"
    using assms by (simp add: cum_sum_nth)
  ultimately show ?thesis using assms by (auto simp: cum_sum_nth)
qed

text \<open>The index that is the sum of the sizes of the first \<open>k + 1\<close> fragments reads the byte
  of the file that follows fragment \<open>k\<close>.\<close>

lemma getitem_int_boundary:
  assumes "\<forall>(x, y)\<in>set sl. x < y" "k < length sl"
  shows "getitem_int m (ScatteredMemory_init sl) (cum_sum (ScatteredMemory_init sl) ! k)
       = py_index m (snd (sl ! k))"
proof -
  let ?sm = "ScatteredMemory_init sl"
  have b: "bisect_left (cum_sum ?sm) (cum_sum ?sm ! k) = k"
    using cum_sum_increasing[OF assms(1)] assms(2) by (intro bisect_left_at) simp_all
  have i: "py_index sl (int k) = Inr (sl ! k)" using assms(2) by (simp add: py_index_def)
  show ?thesis
    using cum_sum_step[OF assms(2)] by (simp add: getitem_int_def b i case_prod_beta Let_def)
qed

text \<open>A stream of 90 megabytes in two fragments is returned as a lazy view, and the index
  at the end of the first fragment reads the first byte of the free sector 45.\<close>

lemma big_loop:
  "map_sum id (\<lambda>(seen', r). r)
     (locate_loop big_sat 512 1048576 False 6 90 (replicate 91 0) 0 (-99) (-9999) (-8888) [] 0)
   = Inr (-2, 512 + 46 * 1048576, 512 + 91 * 1048576, [(512, 512 + 45 * 1048576)], 90)"
  by code_simp

lemma locate_stream_scattered:
  "map_sum id snd (locate_stream m 512 big_sat 1048576 0 94371840 6 False (replicate 91 0))
   = Inr (Scattered big_slices, 0, 94371840)"
  using big_loop
  by (auto simp: locate_stream_def Let_def EOCSID_def big_slices_def split: sum.splits)

lemma big_boundary:
  "getitem_int m (ScatteredMemory_init big_slices) 47185920 = py_index m 47186432"
proof -
  have c: "cum_sum (ScatteredMemory_init big_slices) ! 0 = 47185920" by code_simp
  have "\<forall>(x, y)\<in>set big_slices. x < y" by (simp add: big_slices_def)
  from getitem_int_boundary[OF this, of 0 m] show ?thesis by (simp add: c) (simp add: big_slices_def)
qed


text \<open>A mark above 255 does not fit the array \<open>seen\<close>: the stream of a directory entry
  whose \<open>DID\<close> is 250 or more is not located.\<close>

lemma locate_stream_large_DID:
  assumes "0 \<le> s" "nat s < length seen" "seen ! nat s = 0" "255 < seen_id" "sec_size \<noteq> 0"
  shows "locate_stream m base sat sec_size s expected seen_id ig seen = Inl OverflowError"
  using assms by (simp add: locate_stream_def Let_def) (subst locate_loop.simps, simp)

text \<open>
  Claim C1 says that the lazy view of a fragmented stream yields, by indexing and by
  slicing, the same bytes as the eager concatenation of the fragments.  An integer index
  that is the sum of the sizes of the leading fragments is looked up with
  \<open>bisect_left\<close>, which gives the fragment that ends there and not the one that begins
  there.  For the fragments 8 to 16 and 24 to 32 of a file whose byte at offset \<open>k\<close> is
  \<open>k\<close>, the index 8 of the view is the byte 16 of the file, which belongs to no fragment;
  the concatenation has the byte 24 of the file at index 8, and so has the slice from 8
  to 9 of the view.
\<close>

theorem scattered_index_at_fragment_boundary:
  "getitem_int bytes40 (ScatteredMemory_init [(8, 16), (24, 32)]) 8 = Inr 16
   \<and> py_index (join_slices bytes40 [(8, 16), (24, 32)]) 8 = Inr 24
   \<and> getitem_slice bytes40 (ScatteredMemory_init [(8, 16), (24, 32)]) 8 9 = [24]
   \<and> cum_sum (ScatteredMemory_init [(8, 16), (24, 32)]) = [8, 16]
   \<and> bisect_left [8, 16] 8 = 0"
  by code_simp

subsection \<open>An encrypted workbook\<close>

lemma handle_filepass_raises: "\<exists>e. handle_filepass H bk data = Inl e"
  by (auto simp: handle_filepass_def and_then_def split: option.splits sum.splits)

lemma handle_filepass_quiet:
  "verbosity bk < 2 \<Longrightarrow> handle_filepass H bk data = Inl (XLRDError ''Workbook is encrypted'')"
  by (simp add: handle_filepass_def)

lemma handle_filepass_old:
  "hex_char_dump H data = None \<Longrightarrow> biff_version bk < 80 \<Longrightarrow>
     handle_filepass H bk data = Inl (XLRDError ''Workbook is encrypted'')"
  by (simp add: handle_filepass_def)

lemma handle_filepass_well_formed:
  assumes "hex_char_dump H data = None" "2 \<le> length data"
    and "le_uint (take 2 data) = 0 \<longrightarrow> length data = 6"
    and "le_uint (take 2 data) = 1 \<longrightarrow> 6 \<le> length data"
  shows "handle_filepass H bk data = Inl (XLRDError ''Workbook is encrypted'')"
proof -
  have a: "unpack_H (py_slice data 0 2) = Inr (le_uint (take 2 data))"
    using assms(2) by (simp add: unpack_H_def py_slice_def py_bound_def Let_def)
  have b: "length data = 6 \<Longrightarrow> \<exists>kh. unpack_HH (py_slice data 2 (int (length data))) = Inr kh"
    by (simp add: unpack_HH_def py_slice_def py_bound_def Let_def)
  have c: "6 \<le> length data \<Longrightarrow> \<exists>k. unpack_H (py_slice data 4 6) = Inr k"
    by (simp add: unpack_H_def py_slice_def py_bound_def Let_def)
  show ?thesis
    using assms(1,3,4) a b c by (auto simp: handle_filepass_def and_then_def)
qed

lemma handle_filepass_short:
  "2 \<le> verbosity bk \<Longrightarrow> hex_char_dump H data = None \<Longrightarrow> 80 \<le> biff_version bk \<Longrightarrow> length data < 2 \<Longrightarrow>
     handle_filepass H bk data = Inl StructError"
  by (simp add: handle_filepass_def and_then_def unpack_H_def py_slice_def py_bound_def Let_def)

lemma handle_filepass_errors:
  assumes "handle_filepass H bk data = Inl e"
  shows "e = XLRDError ''Workbook is encrypted''
       \<or> (2 \<le> verbosity bk \<and> (hex_char_dump H data = Some e \<or> (80 \<le> biff_version bk \<and> e = StructError)))"
  using assms
  by (auto simp: handle_filepass_def and_then_def unpack_H_def unpack_HH_def
           split: option.splits sum.splits if_splits)

lemma dispatch_filepass:
  assumes "XL_FILEPASS K \<notin> set (codes_before_filepass K G)"
  shows "dispatch H K G E (XL_FILEPASS K) len data bk = and_then (handle_filepass H bk data) (\<lambda>bk'. Inr (False, bk'))"
  using assms by (auto simp: dispatch_def codes_before_filepass_def Let_def)

lemma globals_loop_filepass:
  assumes "get_record_parts bk = Inr ((XL_FILEPASS K, len, data), bk1)"
    and "XL_FILEPASS K \<notin> set (codes_before_filepass K G)"
  shows "globals_loop H K G E bk = Some (handle_filepass H bk1 data)"
proof -
  obtain e where e: "handle_filepass H bk1 data = Inl e" using handle_filepass_raises by blast
  have "dispatch H K G E (XL_FILEPASS K) len data bk1 = Inl e"
    using e by (simp add: dispatch_filepass[OF assms(2)] and_then_def)
  then have "globals_turn H K G E bk = Inl e"
    using assms(1) by (simp add: globals_turn_def and_then_def)
  then show ?thesis using e by (subst globals_loop.simps) simp
qed

lemma globals_turns_loop:
  "globals_turns H K G E n bk = Some bk' \<Longrightarrow> globals_loop H K G E bk = globals_loop H K G E bk'"
proof (induction n arbitrary: bk)
  case 0
  then show ?case by simp
next
  case (Suc n)
  from Suc.prems obtain b where
    t: "globals_turn H K G E bk = Inr (False, b)" and r: "globals_turns H K G E n b = Some bk'"
    by (auto split: sum.splits prod.splits bool.splits)
  have "globals_loop H K G E bk = globals_loop H K G E b"
    using t by (subst globals_loop.simps) simp
  with Suc.IH[OF r] show ?case by simp
qed

lemma globals_loop_error:
  "globals_turn H K G E bk = Inl e \<Longrightarrow> globals_loop H K G E bk = Some (Inl e)"
  by (subst globals_loop.simps) simp

text \<open>
  Claim C4 says that a \<open>FILEPASS\<close> record anywhere before the \<open>EOF\<close> record makes
  the parse raise the error \<open>Workbook is encrypted\<close>, whatever the records around it and
  the configuration.  The records are handled in their order, and the handler of
  \<open>FILEPASS\<close> dumps the record before it raises when \<open>verbosity\<close> is 2 or more.  With
  \<open>verbosity\<close> 2 in a BIFF 8 book, a \<open>FILEPASS\<close> record with an empty payload raises
  \<open>struct.error\<close>; and a \<open>DATEMODE\<close> record with the value 2 before the
  \<open>FILEPASS\<close> record raises \<open>AssertionError\<close>.
\<close>

theorem parse_globals_filepass_other_error:
  "parse_globals idle_handlers biffh_xlrd codes_xlrd some_codecs
      (globals_book (record_bytes 0x2F [] @ record_bytes 0x0A []) 80 2)
     = Some (Inl StructError)
   \<and> parse_globals idle_handlers biffh_xlrd codes_xlrd some_codecs
      (globals_book (record_bytes 0x22 (le16 2) @ record_bytes 0x2F [] @ record_bytes 0x0A []) 80 0)
     = Some (Inl AssertionError)
   \<and> XL_FILEPASS biffh_xlrd = 0x2F \<and> XL_DATEMODE biffh_xlrd = 0x22 \<and> XL_EOF biffh_xlrd = 0x0A"
  by code_simp

text \<open>
  Claim C4, as amended.  \<open>handle_filepass\<close> never returns: there is no decryption, and
  the error is \<open>Workbook is encrypted\<close> when \<open>verbosity\<close> is below 2, and also above
  when the dump of the record returns and the version is below BIFF 8 or the payload has the
  fields that the dump unpacks; otherwise it is the error of the dump or \<open>struct.error\<close>.
  When the loop of \<open>parse_globals\<close>, after any number of records handled without error,
  reads a \<open>FILEPASS\<close> record, the parse ends there with the error of
  \<open>handle_filepass\<close>: it does not return and reads no further record.  (The code of
  \<open>FILEPASS\<close> is taken to differ from the codes that the loop tests before it.)  A
  record before it whose handling raises ends the parse with that error.
\<close>

theorem parse_globals_filepass:
  "(\<exists>err. handle_filepass H bk data = Inl err)
   \<and> (verbosity bk < 2
        \<or> (hex_char_dump H data = None \<and> biff_version bk < 80)
        \<or> (hex_char_dump H data = None \<and> 2 \<le> length data
            \<and> (le_uint (take 2 data) = 0 \<longrightarrow> length data = 6)
            \<and> (le_uint (take 2 data) = 1 \<longrightarrow> 6 \<le> length data)) \<longrightarrow>
       handle_filepass H bk data = Inl (XLRDError ''Workbook is encrypted''))
   \<and> (handle_filepass H bk data = Inl e \<longrightarrow>
       e = XLRDError ''Workbook is encrypted''
       \<or> (2 \<le> verbosity bk
           \<and> (hex_char_dump H data = Some e \<or> (80 \<le> biff_version bk \<and> e = StructError))))
   \<and> (initialise_book H bk = Inr bka \<and> globals_turns H K G E n bka = Some bkb
       \<and> get_record_parts bkb = Inr ((XL_FILEPASS K, len, payload), bkc)
       \<and> XL_FILEPASS K \<notin> set (codes_before_filepass K G) \<longrightarrow>
       parse_globals H K G E bk = Some (handle_filepass H bkc payload)
       \<and> (\<exists>err. parse_globals H K G E bk = Some (Inl err))
       \<and> (verbosity bkc < 2 \<longrightarrow>
            parse_globals H K G E bk = Some (Inl (XLRDError ''Workbook is encrypted''))))
   \<and> (initialise_book H bk = Inr bka \<and> globals_turns H K G E n bka = Some bkb
       \<and> globals_turn H K G E bkb = Inl e \<longrightarrow>
       parse_globals H K G E bk = Some (Inl e))"
proof -
  have A: "\<exists>err. handle_filepass H bk data = Inl err" by (rule handle_filepass_raises)
  have B: "handle_filepass H bk data = Inl (XLRDError ''Workbook is encrypted'')"
    if "verbosity bk < 2
        \<or> (hex_char_dump H data = None \<and> biff_version bk < 80)
        \<or> (hex_char_dump H data = None \<and> 2 \<le> length data
            \<and> (le_uint (take 2 data) = 0 \<longrightarrow> length data = 6)
            \<and> (le_uint (take 2 data) = 1 \<longrightarrow> 6 \<le> length data))"
    using that handle_filepass_quiet[of bk H data] handle_filepass_old[of H data bk]
      handle_filepass_well_formed[of H data bk]
    by blast
  have C: "e = XLRDError ''Workbook is encrypted''
       \<or> (2 \<le> verbosity bk
           \<and> (hex_char_dump H data = Some e \<or> (80 \<le> biff_version bk \<and> e = StructError)))"
    if "handle_filepass H bk data = Inl e"
    using that by (rule handle_filepass_errors)
  have D: "parse_globals H K G E bk = Some (handle_filepass H bkc payload)
       \<and> (\<exists>err. parse_globals H K G E bk = Some (Inl err))
       \<and> (verbosity bkc < 2 \<longrightarrow>
            parse_globals H K G E bk = Some (Inl (XLRDError ''Workbook is encrypted'')))"
    if i: "initialise_book H bk = Inr bka" and t: "globals_turns H K G E n bka = Some bkb"
      and g: "get_record_parts bkb = Inr ((XL_FILEPASS K, len, payload), bkc)"
      and d: "XL_FILEPASS K \<notin> set (codes_before_filepass K G)"
  proof -
    have "parse_globals H K G E bk = globals_loop H K G E bka"
      using i by (simp add: parse_globals_def)
    also have "\<dots> = globals_loop H K G E bkb" using t by (rule globals_turns_loop)
    also have "\<dots> = Some (handle_filepass H bkc payload)" using g d by (rule globals_loop_filepass)
    finally have p: "parse_globals H K G E bk = Some (handle_filepass H bkc payload)" .
    moreover obtain err where "handle_filepass H bkc payload = Inl err"
      using handle_filepass_raises by blast
    moreover have "verbosity bkc < 2 \<Longrightarrow>
        handle_filepass H bkc payload = Inl (XLRDError ''Workbook is encrypted'')"
      by (rule handle_filepass_quiet)
    ultimately show ?thesis by auto
  qed
  have F: "parse_globals H K G E bk = Some (Inl e)"
    if i: "initialise_book H bk = Inr bka" and t: "globals_turns H K G E n bka = Some bkb"
      and g: "globals_turn H K G E bkb = Inl e"
  proof -
    have "parse_globals H K G E bk = globals_loop H K G E bka"
      using i by (simp add: parse_globals_def)
    also have "\<dots> = globals_loop H K G E bkb" using t by (rule globals_turns_loop)
    also have "\<dots> = Some (Inl e)" using g by (rule globals_loop_error)
    finally show ?thesis .
  qed
  show ?thesis
    apply (intro conjI impI)
    subgoal using A by blast
    subgoal using B by blast
    subgoal using C by blast
    subgoal using D by blast
    subgoal using D by blast
    subgoal using D by blast
    subgoal using F by blast
    done
qed

theorem parse_globals_filepass_witness:
  "parse_globals idle_handlers biffh_xlrd codes_xlrd some_codecs
      (globals_book (record_bytes 0x22 (le16 1) @ record_bytes 0x2F [] @ record_bytes 0x0A []) 80 0)
     = Some (Inl (XLRDError ''Workbook is encrypted''))
   \<and> handle_filepass idle_handlers (globals_book [] 80 2) [1, 0, 1, 0, 2, 0]
     = Inl (XLRDError ''Workbook is encrypted'')
   \<and> parse_globals idle_handlers biffh_xlrd codes_xlrd some_codecs
      (globals_book (record_bytes 0x22 (le16 1) @ record_bytes 0x22 [7] @ record_bytes 0x2F []) 80 0)
     = Some (Inl StructError)"
proof -
  let ?s = "record_bytes 0x22 (le16 1) @ record_bytes 0x2F [] @ record_bytes 0x0A []"
  let ?b0 = "globals_book ?s 80 0"
  let ?b1 = "?b0\<lparr>position := 6, date_mode := 1\<rparr>"
  let ?b2 = "?b1\<lparr>position := 10\<rparr>"
  note T = parse_globals_filepass [where H = idle_handlers and bk = ?b0 and data = "[]"
      and e = StructError and bka = ?b0 and K = biffh_xlrd and G = codes_xlrd and E = some_codecs
      and n = 1 and bkb = ?b1 and len = 0 and payload = "[]" and bkc = ?b2]
  note U = parse_globals_filepass [where H = idle_handlers and bk = "globals_book [] 80 2"
      and data = "[1, 0, 1, 0, 2, 0]"
      and e = StructError and bka = ?b0 and K = biffh_xlrd and G = codes_xlrd and E = some_codecs
      and n = 1 and bkb = ?b1 and len = 0 and payload = "[]" and bkc = ?b2]
  have i: "initialise_book idle_handlers ?b0 = Inr ?b0" by code_simp
  have t: "globals_turns idle_handlers biffh_xlrd codes_xlrd some_codecs 1 ?b0 = Some ?b1" by code_simp
  have g: "get_record_parts ?b1 = Inr ((XL_FILEPASS biffh_xlrd, 0, []), ?b2)" by code_simp
  have d: "XL_FILEPASS biffh_xlrd \<notin> set (codes_before_filepass biffh_xlrd codes_xlrd)" by code_simp
  have v: "verbosity ?b2 < 2" by code_simp
  have 1: "parse_globals idle_handlers biffh_xlrd codes_xlrd some_codecs ?b0
             = Some (Inl (XLRDError ''Workbook is encrypted''))"
    using T[THEN conjunct2, THEN conjunct2, THEN conjunct2, THEN conjunct1, THEN mp,
            OF conjI[OF i conjI[OF t conjI[OF g d]]], THEN conjunct2, THEN conjunct2, THEN mp, OF v] .
  have h: "hex_char_dump idle_handlers [1, 0, 1, 0, 2, 0] = None" by code_simp
  have k: "le_uint (take 2 [1, 0, 1, 0, 2, 0 :: byte]) = 1" by code_simp
  have 2: "handle_filepass idle_handlers (globals_book [] 80 2) [1, 0, 1, 0, 2, 0]
     = Inl (XLRDError ''Workbook is encrypted'')"
    by (rule U[THEN conjunct2, THEN conjunct1, THEN mp]) (simp add: h k)
  let ?c0 = "globals_book (record_bytes 0x22 (le16 1) @ record_bytes 0x22 [7] @ record_bytes 0x2F []) 80 0"
  let ?c1 = "?c0\<lparr>position := 6, date_mode := 1\<rparr>"
  note V = parse_globals_filepass [where H = idle_handlers and bk = ?c0 and data = "[]"
      and e = StructError and bka = ?c0 and K = biffh_xlrd and G = codes_xlrd and E = some_codecs
      and n = 1 and bkb = ?c1 and len = 0 and payload = "[]" and bkc = ?c1]
  have ci: "initialise_book idle_handlers ?c0 = Inr ?c0" by code_simp
  have ct: "globals_turns idle_handlers biffh_xlrd codes_xlrd some_codecs 1 ?c0 = Some ?c1" by code_simp
  have cg: "globals_turn idle_handlers biffh_xlrd codes_xlrd some_codecs ?c1 = Inl StructError" by code_simp
  have 3: "parse_globals idle_handlers biffh_xlrd codes_xlrd some_codecs ?c0 = Some (Inl StructError)"
    using V[THEN conjunct2, THEN conjunct2, THEN conjunct2, THEN conjunct2, THEN mp,
            OF conjI[OF ci conjI[OF ct cg]]] .
  from 1 2 3 show ?thesis by blast
qed

end
